theory Spec2Isabelle
  imports
    Main
    "HOL-Library.Word"
    "HOL-Library.Multiset"
    "HOL-Library.Char_ord"
    "HOL-Library.List_Lexorder"
    "HOL-Library.AList"
begin

chapter \<open>The statement executor of the SQL node (app/ts-sql/sql/server.go)\<close>

text \<open>
  A shallow embedding of the retry wrappers, the streaming SELECT execution, the
  running-query view, the kill-query fan-out, the name-list merge and a few metadata
  operations of \<^verbatim>\<open>StatementExecutor\<close>.

  Everything the Go code obtains from another package (the metadata client, the storage
  transport, the pipeline executor, the clock, the result sink) is an explicit
  parameter: an oracle that returns the outcome of the k-th call. Effects (time that
  passes, calls made, sleeps requested, results delivered) are recorded in a state
  that the functions pass along.
\<close>

section \<open>Errors, rows, results\<close>

text \<open>
  A Go \<^verbatim>\<open>error\<close>: the text of \<^verbatim>\<open>err.Error()\<close>, and the code of the
  \<^verbatim>\<open>*errno.Error\<close> it is or wraps (\<open>None\<close> for an error of another kind).
  \<^verbatim>\<open>nil\<close> is \<open>None :: error option\<close>.
\<close>

record error =
  errno :: "nat option"
  msg :: string

text \<open>\<^verbatim>\<open>strings.HasPrefix\<close> and \<^verbatim>\<open>strings.Contains\<close>, \<^verbatim>\<open>strings.Join\<close>.\<close>

fun HasPrefix :: "string \<Rightarrow> string \<Rightarrow> bool" where
  "HasPrefix s [] = True"
| "HasPrefix [] (p # ps) = False"
| "HasPrefix (c # cs) (p # ps) = (c = p \<and> HasPrefix cs ps)"

fun Contains :: "string \<Rightarrow> string \<Rightarrow> bool" where
  "Contains [] sub = (sub = [])"
| "Contains (c # cs) sub = (HasPrefix (c # cs) sub \<or> Contains cs sub)"


text \<open>
  \<^verbatim>\<open>models.Row\<close> with its cells (\<^verbatim>\<open>interface{}\<close> values: the code stores
  unsigned integers and strings), and \<^verbatim>\<open>query.Result\<close>.
\<close>

datatype cell = CUint nat | CString string

record Row =
  Name :: string
  Columns :: "string list"
  Values :: "cell list list"

type_synonym rows = "Row list"

record Result =
  Series :: rows
  Partial :: bool
  StatementID :: int

section \<open>The environment of one execution\<close>

text \<open>
  Constants and predicates of the \<^verbatim>\<open>coordinator\<close> and \<^verbatim>\<open>influxql\<close> packages that
  the executor uses and whose declarations are not in this file of the repository:
  the two error classes, the retry budget in seconds, the retry interval in
  milliseconds, and the sentinel error for an empty collection.
\<close>

record deps =
  IsRetriedError :: "error \<Rightarrow> bool"
  IsRetryErrorForPtView :: "error \<Rightarrow> bool"
  DMLTimeOutSecond :: nat
  DMLRetryInternalMillisecond :: nat
  ErrDeclareEmptyCollection :: error

text \<open>
  The effects of an execution: the wall clock in nanoseconds, the number of calls made
  to the retried operation, the durations handed to \<^verbatim>\<open>time.Sleep\<close> (oldest first),
  the results delivered to the sink (oldest first), the number of \<^verbatim>\<open>ctx.Send\<close>
  calls, and whether \<^verbatim>\<open>pipelineExecutor.Abort\<close> was called.
\<close>

record world =
  now :: nat
  calls :: nat
  sleeps :: "nat list"
  sent :: "Result list"
  sendCalls :: nat
  aborted :: bool

text \<open>
  The oracles: \<open>outcome k\<close> is what the k-th call of the retried operation returns and
  \<open>cost k\<close> the time it takes; \<open>lag k\<close> is by how much the k-th sleep oversleeps
  (\<^verbatim>\<open>time.Sleep\<close> pauses for at least the duration); \<open>sendErr k\<close> is the error of the
  k-th \<^verbatim>\<open>ctx.Send\<close>, if it fails.
\<close>

record 'r env =
  outcome :: "nat \<Rightarrow> 'r"
  cost :: "nat \<Rightarrow> nat"
  lag :: "nat \<Rightarrow> nat"
  sendErr :: "nat \<Rightarrow> error option"

definition Sleep :: "'r env \<Rightarrow> nat \<Rightarrow> world \<Rightarrow> world" where
  "Sleep E d w = w\<lparr>now := now w + d + lag E (length (sleeps w)), sleeps := sleeps w @ [d]\<rparr>"

definition invoke :: "'r env \<Rightarrow> world \<Rightarrow> 'r \<times> world" where
  "invoke E w =
     (outcome E (calls w), w\<lparr>now := now w + cost E (calls w), calls := Suc (calls w)\<rparr>)"

text \<open>
  Modelled from the spec: \<^verbatim>\<open>ExecutionContext.Send\<close> of the query package is not in
  this file. "Result sink: Send(result, sequenceNumber) -> error, fails if the underlying
  transport/connection is gone": a send either delivers the result, stamped with the
  sequence number, or returns an error and delivers nothing.
\<close>

definition Send :: "'r env \<Rightarrow> Result \<Rightarrow> int \<Rightarrow> world \<Rightarrow> error option \<times> world" where
  "Send E r seq w =
     (case sendErr E (sendCalls w) of
        Some e \<Rightarrow> (Some e, w\<lparr>sendCalls := Suc (sendCalls w)\<rparr>)
      | None \<Rightarrow> (None, w\<lparr>sent := sent w @ [r\<lparr>StatementID := seq\<rparr>],
                         sendCalls := Suc (sendCalls w)\<rparr>))"

text \<open>A Go call either returns or panics.\<close>

datatype 'a go = Panicked | Returned 'a

section \<open>retryExecuteStatement\<close>

text \<open>
  The statement kinds of the type switch in \<^verbatim>\<open>retryExecuteStatement\<close>; the flag of
  \<open>ExplainStatement\<close> is its \<^verbatim>\<open>Analyze\<close> field, and \<open>OtherStatement\<close> is a
  statement of any other type (no case of the switch matches).
\<close>

datatype statement =
    DropDatabaseStatement
  | DropMeasurementStatement
  | DropRetentionPolicyStatement
  | ShowTagKeysStatement
  | ShowTagKeyCardinalityStatement
  | ShowTagValuesStatement
  | ShowSeriesStatement
  | ShowMeasurementsStatement
  | ShowMeasurementCardinalityStatement
  | ShowSeriesCardinalityStatement
  | ShowTagValuesCardinalityStatement
  | ShowFieldKeysStatement
  | ShowFieldKeyCardinalityStatement
  | ExplainStatement bool
  | OtherStatement

text \<open>The cases that assign \<^verbatim>\<open>rows, err = ...\<close>; the others assign \<^verbatim>\<open>err\<close> only.\<close>

fun assignsRows :: "statement \<Rightarrow> bool" where
  "assignsRows ShowTagValuesStatement = True"
| "assignsRows ShowMeasurementCardinalityStatement = True"
| "assignsRows ShowSeriesCardinalityStatement = True"
| "assignsRows ShowTagValuesCardinalityStatement = True"
| "assignsRows (ExplainStatement analyze) = True"
| "assignsRows _ = False"

text \<open>
  One pass through the type switch. The per-statement executor is the oracle of the
  environment. \<^verbatim>\<open>executeExplainStatement\<close> is \<^verbatim>\<open>panic("impl me")\<close>: the result is
  \<open>None\<close>. A statement of another type leaves \<^verbatim>\<open>rows\<close> and \<^verbatim>\<open>err\<close> as they are.
\<close>

definition dispatch ::
  "(rows \<times> error option) env \<Rightarrow> statement \<Rightarrow> rows \<Rightarrow> error option \<Rightarrow> world
     \<Rightarrow> (rows \<times> error option \<times> world) option" where
  "dispatch E stmt rows err w =
     (case stmt of
        OtherStatement \<Rightarrow> Some (rows, err, w)
      | ExplainStatement False \<Rightarrow> None
      | _ \<Rightarrow> (case invoke E w of
                 ((r, e), w') \<Rightarrow> Some (if assignsRows stmt then r else rows, e, w')))"

definition retriable :: "deps \<Rightarrow> error \<Rightarrow> bool" where
  "retriable D e = (IsRetriedError D e \<or> Contains (msg e) ''repeat mark delete'')"

text \<open>
  The \<^verbatim>\<open>for\<close> loop. \<^verbatim>\<open>time.Now().Sub(startTime).Seconds() < DMLTimeOutSecond\<close> compares
  a duration of whole nanoseconds with a whole number of seconds, so it is read on the
  nanoseconds. \<^verbatim>\<open>retryNum\<close> is a \<^verbatim>\<open>uint32\<close>.
\<close>

partial_function (option) retryLoop ::
  "deps \<Rightarrow> (rows \<times> error option) env \<Rightarrow> statement \<Rightarrow> nat \<Rightarrow> 32 word \<Rightarrow> rows \<Rightarrow> error option
     \<Rightarrow> world \<Rightarrow> ((rows \<times> error option) go \<times> world) option" where
  "retryLoop D E stmt startTime retryNum rows err w =
     (if now w - startTime < DMLTimeOutSecond D * 10 ^ 9 then
        (let w1 = (if retryNum > 0
                   then Sleep E (DMLRetryInternalMillisecond D * 10 ^ 6) w else w)
         in case dispatch E stmt rows err w1 of
              None \<Rightarrow> Some (Panicked, w1)
            | Some (rows', err', w2) \<Rightarrow>
                (case err' of
                   None \<Rightarrow> Some (Returned (rows', None), w2)
                 | Some e \<Rightarrow>
                     if retriable D e
                     then retryLoop D E stmt startTime (retryNum + 1) rows' err' w2
                     else Some (Returned (rows', err'), w2)))
      else Some (Returned (rows, err), w))"

definition retryExecuteStatement ::
  "deps \<Rightarrow> (rows \<times> error option) env \<Rightarrow> statement \<Rightarrow> world
     \<Rightarrow> ((rows \<times> error option) go \<times> world) option" where
  "retryExecuteStatement D E stmt w = retryLoop D E stmt (now w) 0 [] None w"

section \<open>retryExecuteSelectStatement\<close>

definition maxRetrySelectCount :: nat where
  "maxRetrySelectCount = 8"

text \<open>\<^verbatim>\<open>time.Millisecond * 100\<close>, in nanoseconds.\<close>

definition retrySelectInterval :: nat where
  "retrySelectInterval = 10 ^ 6 * 100"

text \<open>
  The \<^verbatim>\<open>for i := 0; i < maxRetrySelectCount; i++\<close> loop; the oracle of the environment
  is \<^verbatim>\<open>executeSelectStatement\<close>. \<^verbatim>\<open>1 << i\<close> is \<open>2 ^ i\<close> (\<open>i\<close> is below 8).
\<close>

function retrySelectLoop ::
  "deps \<Rightarrow> (error option) env \<Rightarrow> nat \<Rightarrow> error option \<Rightarrow> world \<Rightarrow> error option \<times> world" where
  "retrySelectLoop D E i err w =
     (if i < maxRetrySelectCount then
        (case invoke E w of
           (err', w1) \<Rightarrow>
             (case err' of
                None \<Rightarrow> (err', w1)
              | Some e \<Rightarrow>
                  if \<not> IsRetryErrorForPtView D e then (err', w1)
                  else retrySelectLoop D E (i + 1) err'
                         (Sleep E (retrySelectInterval * 2 ^ i) w1)))
      else (err, w))"
  by pat_completeness auto
termination
  by (relation "measure (\<lambda>(D, E, i, err, w). maxRetrySelectCount - i)") auto

definition retryExecuteSelectStatement ::
  "deps \<Rightarrow> (error option) env \<Rightarrow> world \<Rightarrow> error option \<times> world" where
  "retryExecuteSelectStatement D E w = retrySelectLoop D E 0 None w"

text \<open>The k-th call of \<^verbatim>\<open>executeSelectStatement\<close> fails with an error of the pt-view class.\<close>

definition retriedSelect :: "deps \<Rightarrow> (error option) env \<Rightarrow> nat \<Rightarrow> bool" where
  "retriedSelect D E k =
     (case outcome E k of None \<Rightarrow> False | Some e \<Rightarrow> IsRetryErrorForPtView D e)"

section \<open>createPipelineExecutor and retryCreatePipelineExecutor\<close>

text \<open>
  What the select loop of \<^verbatim>\<open>executeSelectStatement\<close> observes, in order: a row batch
  received from the row channel (its rows and its partial flag), or the context's
  cancellation (with the error \<^verbatim>\<open>ctx.Err()\<close> reports). The end of the list is the
  close of the row channel.
\<close>

datatype event = Batch rows bool | Cancelled error

text \<open>
  A \<^verbatim>\<open>*executor.PipelineExecutor\<close>, as far as this code sees it: the events of its
  execution and the error \<^verbatim>\<open>ExecuteExecutor\<close> returns.
\<close>

record PipelineExecutor =
  events :: "event list"
  execErr :: "error option"

text \<open>
  What \<^verbatim>\<open>executor.Select\<close> does: it panics (the flag says whether the panic value is an
  \<^verbatim>\<open>*errno.Error\<close> equal to \<^verbatim>\<open>DtypeNotSupport\<close>), or it returns a plan and an error.
\<close>

datatype select_outcome =
    SelectPanics bool
  | SelectReturns "PipelineExecutor option" "error option"

text \<open>
  The deferred function recovers a panic and panics again only for
  \<^verbatim>\<open>DtypeNotSupport\<close>; after another panic the named results are still \<^verbatim>\<open>nil, nil\<close>.
\<close>

definition createPipelineExecutor ::
  "select_outcome env \<Rightarrow> world \<Rightarrow> (PipelineExecutor option \<times> error option) go \<times> world" where
  "createPipelineExecutor E w =
     (case invoke E w of
        (SelectPanics dtypeNotSupport, w1) \<Rightarrow>
          (if dtypeNotSupport then Panicked else Returned (None, None), w1)
      | (SelectReturns p e_tmp, w1) \<Rightarrow>
          (if e_tmp \<noteq> None \<or> p = None then Returned (None, e_tmp) else Returned (p, e_tmp), w1))"

definition retriableCreate :: "deps \<Rightarrow> error \<Rightarrow> bool" where
  "retriableCreate D e = (IsRetriedError D e \<or> Contains (msg e) ''max message size'')"

text \<open>The \<^verbatim>\<open>for\<close> loop without a condition; \<^verbatim>\<open>retryNum\<close> only feeds the log.\<close>

partial_function (option) retryCreateLoop ::
  "deps \<Rightarrow> select_outcome env \<Rightarrow> nat \<Rightarrow> 32 word \<Rightarrow> world
     \<Rightarrow> ((PipelineExecutor option \<times> error option) go \<times> world) option" where
  "retryCreateLoop D E startTime retryNum w =
     (case createPipelineExecutor E w of
        (Panicked, w1) \<Rightarrow> Some (Panicked, w1)
      | (Returned (pipelineExecutor, err), w1) \<Rightarrow>
          (case err of
             None \<Rightarrow> Some (Returned (pipelineExecutor, err), w1)
           | Some e \<Rightarrow>
               if retriableCreate D e then
                 (if now w1 - startTime < DMLTimeOutSecond D * 10 ^ 9
                  then retryCreateLoop D E startTime (retryNum + 1)
                         (Sleep E (DMLRetryInternalMillisecond D * 10 ^ 6) w1)
                  else Some (Returned (None, err), w1))
               else if Contains (msg e) ''declare empty collection''
                    then Some (Returned (None, None), w1)
                    else Some (Returned (None, err), w1)))"

definition retryCreatePipelineExecutor ::
  "deps \<Rightarrow> select_outcome env \<Rightarrow> world
     \<Rightarrow> ((PipelineExecutor option \<times> error option) go \<times> world) option" where
  "retryCreatePipelineExecutor D E w = retryCreateLoop D E (now w) 0 w"

section \<open>executeSelectStatement\<close>

definition emptyResult :: Result where
  "emptyResult = \<lparr>Series = [], Partial = False, StatementID = 0\<rparr>"

text \<open>
  The receive loop: \<open>Inl e\<close> when the function returns \<open>e\<close> from inside the loop (a failed
  send, or the cancellation), \<open>Inr emitted\<close> when the loop ends at the close of the row
  channel.
\<close>

fun receive ::
  "'r env \<Rightarrow> int \<Rightarrow> event list \<Rightarrow> bool \<Rightarrow> world \<Rightarrow> (error + bool) \<times> world" where
  "receive E seq [] emitted w = (Inr emitted, w)"
| "receive E seq (Batch rs partial # evs) emitted w =
     (case Send E \<lparr>Series = rs, Partial = partial, StatementID = 0\<rparr> seq w of
        (Some e, w1) \<Rightarrow> (Inl e, w1\<lparr>aborted := True\<rparr>)
      | (None, w1) \<Rightarrow> receive E seq evs True w1)"
| "receive E seq (Cancelled e # evs) emitted w = (Inl e, w\<lparr>aborted := True\<rparr>)"

text \<open>
  \<^verbatim>\<open>executeSelectStatement\<close>; \<open>seq\<close> is the sequence number. The goroutine that runs
  the plan writes the error of \<^verbatim>\<open>ExecuteExecutor\<close> to \<^verbatim>\<open>ec\<close> and then closes the row
  channel, so the error is there when the receive loop has seen the close.
\<close>

definition executeSelectStatement ::
  "deps \<Rightarrow> select_outcome env \<Rightarrow> int \<Rightarrow> world \<Rightarrow> ((error option) go \<times> world) option" where
  "executeSelectStatement D E seq w =
     (case retryCreatePipelineExecutor D E w of
        None \<Rightarrow> None
      | Some (Panicked, w1) \<Rightarrow> Some (Panicked, w1)
      | Some (Returned (pipelineExecutor0, err0), w1) \<Rightarrow>
          (let (pipelineExecutor, err) =
                 (if err0 = Some (ErrDeclareEmptyCollection D) then (None, None)
                  else (pipelineExecutor0, err0))
           in case err of
                Some e \<Rightarrow> Some (Returned (Some e), w1)
              | None \<Rightarrow>
                  (case pipelineExecutor of
                     None \<Rightarrow>
                       (case Send E emptyResult seq w1 of (r, w2) \<Rightarrow> Some (Returned r, w2))
                   | Some p \<Rightarrow>
                       (case receive E seq (events p) False w1 of
                          (Inl e, w2) \<Rightarrow> Some (Returned (Some e), w2)
                        | (Inr emitted, w2) \<Rightarrow>
                            (case execErr p of
                               Some e \<Rightarrow> Some (Returned (Some e), w2)
                             | None \<Rightarrow>
                                 if \<not> emitted
                                 then (case Send E emptyResult seq w2 of
                                         (r, w3) \<Rightarrow> Some (Returned r, w3))
                                 else Some (Returned None, w2))))))"

fun isBatch :: "event \<Rightarrow> bool" where
  "isBatch (Batch rs partial) = True"
| "isBatch (Cancelled e) = False"

text \<open>The recursive loops are run through their defining equations.\<close>

declare retryLoop.simps [code]
declare retryCreateLoop.simps [code]

section \<open>Notions used to state the properties of the retry loops\<close>

text \<open>The k-th call of the per-statement executor fails with a retriable error.\<close>

definition retriedAt :: "deps \<Rightarrow> (rows \<times> error option) env \<Rightarrow> nat \<Rightarrow> bool" where
  "retriedAt D E k = (case snd (outcome E k) of None \<Rightarrow> False | Some e \<Rightarrow> retriable D e)"

text \<open>The error \<^verbatim>\<open>createPipelineExecutor\<close> returns for an outcome of \<^verbatim>\<open>executor.Select\<close>.\<close>

fun createErr :: "select_outcome \<Rightarrow> error option" where
  "createErr (SelectPanics dtypeNotSupport) = None"
| "createErr (SelectReturns p e_tmp) = e_tmp"

definition retriedCreateAt :: "deps \<Rightarrow> select_outcome env \<Rightarrow> nat \<Rightarrow> bool" where
  "retriedCreateAt D E k =
     (case createErr (outcome E k) of None \<Rightarrow> False | Some e \<Rightarrow> retriableCreate D e)"

definition budget :: "deps \<Rightarrow> nat" where
  "budget D = DMLTimeOutSecond D * 10 ^ 9"

text \<open>The plan \<^verbatim>\<open>createPipelineExecutor\<close> returns for an outcome of \<^verbatim>\<open>executor.Select\<close>.\<close>

fun createPlan :: "select_outcome \<Rightarrow> PipelineExecutor option" where
  "createPlan (SelectPanics dtypeNotSupport) = None"
| "createPlan (SelectReturns p e_tmp) = (if e_tmp \<noteq> None then None else p)"

text \<open>
  What holds of a run of the loop of \<^verbatim>\<open>retryExecuteStatement\<close> that starts in the state
  \<open>w\<close> with the results \<open>rows\<close> and \<open>err\<close> of the pass before, and ends in \<open>w'\<close>, for a
  statement that the switch handles. If no attempt was made, the budget was used up and
  the results are those of the pass before. Otherwise the results are those of the last
  attempt, every attempt before it failed with a retriable error, a retriable error of the
  last attempt is returned only when the budget is used up, and the last attempt began
  after a test of the budget that saw less than the budget elapsed (in the state \<open>wb\<close>),
  at once or after a sleep.
\<close>

definition loopPost ::
  "deps \<Rightarrow> (rows \<times> error option) env \<Rightarrow> statement \<Rightarrow> nat \<Rightarrow> rows \<Rightarrow> error option \<Rightarrow> world
     \<Rightarrow> (rows \<times> error option) go \<Rightarrow> world \<Rightarrow> bool" where
  "loopPost D E stmt start rows err w g w' =
     (calls w \<le> calls w' \<and> now w \<le> now w' \<and>
      (case g of
         Panicked \<Rightarrow> stmt = ExplainStatement False
       | Returned (rows', err') \<Rightarrow>
           (\<forall>k. calls w \<le> k \<and> Suc k < calls w' \<longrightarrow> retriedAt D E k) \<and>
           (if calls w' = calls w
            then w' = w \<and> rows' = rows \<and> err' = err \<and> budget D \<le> now w - start
            else err' = snd (outcome E (calls w' - 1)) \<and>
                 rows' = (if assignsRows stmt then fst (outcome E (calls w' - 1)) else rows) \<and>
                 (retriedAt D E (calls w' - 1) \<longrightarrow> budget D \<le> now w' - start) \<and>
                 (\<exists>wb. now wb - start < budget D \<and>
                       (w' = snd (invoke E wb) \<or>
                        w' = snd (invoke E
                               (Sleep E (DMLRetryInternalMillisecond D * 10 ^ 6) wb)))))))"

text \<open>
  The same for the loop of \<^verbatim>\<open>retryCreatePipelineExecutor\<close>, which makes at least one
  attempt. An attempt after the first one follows a test of the budget, in the state \<open>wb\<close>
  that the attempt before has left, and a sleep. The plan and the error are those of the
  last attempt, except that an error which is not retriable and contains "declare empty
  collection" becomes \<^verbatim>\<open>nil\<close>.
\<close>

definition createPost ::
  "deps \<Rightarrow> select_outcome env \<Rightarrow> nat \<Rightarrow> world
     \<Rightarrow> (PipelineExecutor option \<times> error option) go \<Rightarrow> world \<Rightarrow> bool" where
  "createPost D E start w g w' =
     (calls w < calls w' \<and> now w \<le> now w' \<and>
      (\<forall>k. calls w \<le> k \<and> Suc k < calls w' \<longrightarrow> retriedCreateAt D E k) \<and>
      (if calls w' = Suc (calls w) then w' = snd (invoke E w)
       else (\<exists>wb. now wb - start < budget D \<and>
                  w' = snd (invoke E (Sleep E (DMLRetryInternalMillisecond D * 10 ^ 6) wb)))) \<and>
      (case g of
         Panicked \<Rightarrow> outcome E (calls w' - 1) = SelectPanics True
       | Returned (p, err') \<Rightarrow>
           p = createPlan (outcome E (calls w' - 1)) \<and>
           (case createErr (outcome E (calls w' - 1)) of
              None \<Rightarrow> err' = None
            | Some e \<Rightarrow>
                if retriableCreate D e then err' = Some e \<and> budget D \<le> now w' - start
                else err' = (if Contains (msg e) ''declare empty collection''
                             then None else Some e))))"

section \<open>Dropping a database or a retention policy\<close>

text \<open>
  The metadata client is outside this file; the three operations these functions call
  are oracles. \<^verbatim>\<open>DatabaseInfo.RetentionPolicy\<close> looks a policy up by name.
  The requests that change the metadata are logged, in order.
\<close>

record RetentionPolicyInfo =
  rpName :: string

record DatabaseInfo =
  dbName :: string
  RetentionPolicy :: "string \<Rightarrow> RetentionPolicyInfo option"

record MetaClient =
  MarkDatabaseDelete :: "string \<Rightarrow> error option"
  Database :: "string \<Rightarrow> DatabaseInfo option \<times> error option"
  MarkRetentionPolicyDelete :: "string \<Rightarrow> string \<Rightarrow> error option"

datatype meta_request =
    ReqMarkDatabaseDelete string
  | ReqMarkRetentionPolicyDelete string string

text \<open>\<^verbatim>\<open>executeDropDatabaseStatement\<close>; the argument is \<^verbatim>\<open>stmt.Name\<close>.\<close>

definition executeDropDatabaseStatement ::
  "MetaClient \<Rightarrow> string \<Rightarrow> error option \<times> meta_request list" where
  "executeDropDatabaseStatement M name =
     (case MarkDatabaseDelete M name of
        Some err \<Rightarrow>
          (if HasPrefix (msg err) ''database not found'' then None else Some err,
           [ReqMarkDatabaseDelete name])
      | None \<Rightarrow> (None, [ReqMarkDatabaseDelete name]))"

text \<open>
  \<^verbatim>\<open>executeDropRetentionPolicyStatement\<close>; the arguments are \<^verbatim>\<open>stmt.Database\<close> and
  \<^verbatim>\<open>stmt.Name\<close>. The error of \<^verbatim>\<open>MetaClient.Database\<close> is dropped
  (\<^verbatim>\<open>dbi, _ := ...\<close>).
\<close>

definition executeDropRetentionPolicyStatement ::
  "MetaClient \<Rightarrow> string \<Rightarrow> string \<Rightarrow> error option \<times> meta_request list" where
  "executeDropRetentionPolicyStatement M database name =
     (case fst (Database M database) of
        None \<Rightarrow> (None, [])
      | Some dbi \<Rightarrow>
          (case RetentionPolicy dbi name of
             None \<Rightarrow> (None, [])
           | Some rpi \<Rightarrow>
               (case MarkRetentionPolicyDelete M database name of
                  Some err \<Rightarrow> (Some err, [ReqMarkRetentionPolicyDelete database name])
                | None \<Rightarrow> (None, [ReqMarkRetentionPolicyDelete database name]))))"

section \<open>executeShowSeries and limitStringSlice\<close>

text \<open>
  \<^verbatim>\<open>limitStringSlice\<close>. \<^verbatim>\<open>offset\<close> and \<^verbatim>\<open>limit\<close> are Go \<^verbatim>\<open>int\<close>s: words of 64
  bits, read as signed numbers by \<open>sint\<close>; \<^verbatim>\<open>offset + limit\<close> wraps. The slice expression \<^verbatim>\<open>s[offset:end]\<close> panics when
  \<^verbatim>\<open>offset\<close> is negative or \<^verbatim>\<open>end\<close> is below \<^verbatim>\<open>offset\<close>: the result is \<open>None\<close>.
  \<^verbatim>\<open>nil\<close> is the empty list.
\<close>

definition limitStringSlice :: "string list \<Rightarrow> 64 word \<Rightarrow> 64 word \<Rightarrow> string list option" where
  "limitStringSlice s offset limit =
     (let l = int (length s) in
      if sint offset \<ge> l then Some []
      else
        (let e0 = sint (offset + limit);
             e = (if limit = 0 \<or> e0 \<ge> l then l else e0)
         in if sint offset < 0 \<or> e < sint offset then None
            else Some (take (nat (e - sint offset)) (drop (nat (sint offset)) s))))"

text \<open>
  The fields of \<^verbatim>\<open>ShowSeriesStatement\<close> that \<^verbatim>\<open>executeShowSeries\<close> reads itself (the
  database, the sources and the condition only travel to the oracles).
\<close>

record ShowSeriesStatement =
  Offset :: "64 word"
  Limit :: "64 word"

text \<open>
  The calls \<^verbatim>\<open>executeShowSeries\<close> makes outside this file: the measurement names that
  \<^verbatim>\<open>MetaClient.MatchMeasurements\<close> returns, the nodes of the database with their
  partitions, and \<^verbatim>\<open>NetStorage.ShowSeries\<close> on one node.
\<close>

record SeriesStore =
  MatchMeasurements :: "string list \<times> error option"
  DBNodes :: "(64 word \<times> 32 word list) list"
  ShowSeries :: "64 word \<Rightarrow> 32 word list \<Rightarrow> string list \<Rightarrow> string list \<times> error option"

text \<open>
  Modelled from the spec: \<^verbatim>\<open>MetaExecutor.EachDBNodes\<close> is not in this file. "Node
  Fan-out Executor: given a database name, invokes a callback once per storage node that
  owns shards of that database, passing the node id and its local shard/partition ids;
  collects errors"; "fn may set the shared error flag". The callbacks run one after the
  other here, in the order of the node list (any order can be given); each takes and
  returns the shared flag and the state it accumulates under the lock. The error
  returned is the first one collected.
\<close>

fun EachDBNodes ::
  "(64 word \<times> 32 word list) list
   \<Rightarrow> (64 word \<Rightarrow> 32 word list \<Rightarrow> bool \<times> 's \<Rightarrow> error option \<times> (bool \<times> 's))
   \<Rightarrow> bool \<times> 's \<Rightarrow> error option \<times> (bool \<times> 's)" where
  "EachDBNodes [] fn st = (None, st)"
| "EachDBNodes ((nodeID, pts) # ns) fn st =
     (case fn nodeID pts st of
        (err, st1) \<Rightarrow>
          (case EachDBNodes ns fn st1 of
             (err', st2) \<Rightarrow> (case err of Some e \<Rightarrow> Some e | None \<Rightarrow> err', st2)))"

text \<open>The callback of \<^verbatim>\<open>executeShowSeries\<close>; the state is the slice \<^verbatim>\<open>series\<close>.\<close>

definition showSeriesOnNode ::
  "SeriesStore \<Rightarrow> string list \<Rightarrow> 64 word \<Rightarrow> 32 word list \<Rightarrow> bool \<times> string list
     \<Rightarrow> error option \<times> (bool \<times> string list)" where
  "showSeriesOnNode S names nodeID pts st =
     (case st of
        (hasErr, series) \<Rightarrow>
          if hasErr then (None, (hasErr, series))
          else
            (case ShowSeries S nodeID pts names of
               (arr, err) \<Rightarrow>
                 (let (hasErr1, series1) =
                        (if err \<noteq> None then (True, []) else (hasErr, series));
                      series2 = (if \<not> hasErr1 then series1 @ arr else series1)
                  in (err, (hasErr1, series2)))))"

definition executeShowSeries ::
  "'r env \<Rightarrow> SeriesStore \<Rightarrow> ShowSeriesStatement \<Rightarrow> int \<Rightarrow> world \<Rightarrow> (error option) go \<times> world" where
  "executeShowSeries E S q seq w =
     (case MatchMeasurements S of
        (names, Some err) \<Rightarrow> (Returned (Some err), w)
      | (names, None) \<Rightarrow>
          (case EachDBNodes (DBNodes S) (showSeriesOnNode S names) (False, []) of
             (Some err, st) \<Rightarrow> (Returned (Some err), w)
           | (None, (hasErr, series)) \<Rightarrow>
               (case limitStringSlice (sort series) (Offset q) (Limit q) of
                  None \<Rightarrow> (Panicked, w)
                | Some series' \<Rightarrow>
                    if length series' = 0 then (Returned None, w)
                    else
                      (case Send E
                              \<lparr>Series = [\<lparr>Name = [], Columns = [''key''],
                                          Values = map (\<lambda>item. [CString item]) series'\<rparr>],
                               Partial = False, StatementID = 0\<rparr> seq w of
                         (r, w') \<Rightarrow> (Returned r, w')))))"

section \<open>Go maps\<close>

text \<open>
  A Go map used as a set of keys is the list of its keys without repetition;
  \<^verbatim>\<open>m[k] = v\<close> on such a map is \<open>insertKey\<close>. A map with values is an association list
  with \<open>map_of\<close> and \<open>AList.update\<close>. Go iterates over a map in an order it does not
  specify: \<open>shuffle seed\<close> is one iteration order, and every order is \<open>shuffle seed\<close> for
  some \<open>seed\<close>.
\<close>

definition insertKey :: "'a \<Rightarrow> 'a list \<Rightarrow> 'a list" where
  "insertKey k ks = (if k \<in> set ks then ks else ks @ [k])"

fun shuffle :: "nat list \<Rightarrow> 'a list \<Rightarrow> 'a list" where
  "shuffle seed [] = []"
| "shuffle [] (x # xs) = x # xs"
| "shuffle (s # seed) (x # xs) =
     (let i = s mod length (x # xs)
      in (x # xs) ! i # shuffle seed (take i (x # xs) @ drop (Suc i) (x # xs)))"

section \<open>The running-query view\<close>

text \<open>
  \<^verbatim>\<open>netstorage.RunStateType\<close> and \<^verbatim>\<open>netstorage.QueryExeInfo\<close> are declared outside this
  file. The code names the states \<^verbatim>\<open>Running\<close> and \<^verbatim>\<open>Killed\<close> and has a
  \<^verbatim>\<open>default\<close> branch for any other value of the type.
\<close>

datatype RunStateType = Running | Killed | OtherRunState

record QueryExeInfo =
  QueryID :: "64 word"
  Stmt :: string
  InfoDatabase :: string
  BeginTime :: int
  RunState :: RunStateType


record combinedQueryExeInfo =
  qid :: "64 word"
  stmt :: string
  database :: string
  beginTime :: int
  runningHosts :: "string list"
  killedHosts :: "string list"

definition updateBeginTime :: "combinedQueryExeInfo \<Rightarrow> int \<Rightarrow> combinedQueryExeInfo" where
  "updateBeginTime q newBegin = (if newBegin < beginTime q then q\<lparr>beginTime := newBegin\<rparr> else q)"

definition updateHosts ::
  "combinedQueryExeInfo \<Rightarrow> string \<Rightarrow> RunStateType \<Rightarrow> combinedQueryExeInfo" where
  "updateHosts q newHost newRunState =
     (case newRunState of
        Running \<Rightarrow> q\<lparr>runningHosts := insertKey newHost (runningHosts q)\<rparr>
      | Killed \<Rightarrow> q\<lparr>killedHosts := insertKey newHost (killedHosts q)\<rparr>
      | OtherRunState \<Rightarrow> q)"



text \<open>
  The value of an \<^verbatim>\<open>int64\<close> computation whose exact result is \<open>x\<close>: it wraps around.
\<close>

definition wrap64 :: "int \<Rightarrow> int" where
  "wrap64 x = (x + 2 ^ 63) mod 2 ^ 64 - 2 ^ 63"




text \<open>
  One pass of the loop of \<^verbatim>\<open>combineQueryExeInfos\<close>. The map holds pointers, so an update
  of \<^verbatim>\<open>cmbInfo\<close> is an update of the map's entry.
\<close>

definition newCmbInfo :: "QueryExeInfo \<Rightarrow> string \<Rightarrow> combinedQueryExeInfo" where
  "newCmbInfo info host =
     updateHosts \<lparr>qid = QueryID info, stmt = Stmt info, database = InfoDatabase info,
                  beginTime = BeginTime info, runningHosts = [], killedHosts = []\<rparr>
       host (RunState info)"

definition combineOne ::
  "(64 word \<times> combinedQueryExeInfo) list \<Rightarrow> string \<Rightarrow> QueryExeInfo
     \<Rightarrow> (64 word \<times> combinedQueryExeInfo) list" where
  "combineOne dstMap host info =
     (case map_of dstMap (QueryID info) of
        Some cmbInfo \<Rightarrow>
          if stmt cmbInfo = Stmt info
          then AList.update (QueryID info)
                 (updateHosts (updateBeginTime cmbInfo (BeginTime info)) host (RunState info))
                 dstMap
          else if BeginTime info \<le> beginTime cmbInfo then dstMap
          else AList.update (QueryID info) (newCmbInfo info host) dstMap
      | None \<Rightarrow> AList.update (QueryID info) (newCmbInfo info host) dstMap)"

fun combineQueryExeInfos ::
  "(64 word \<times> combinedQueryExeInfo) list \<Rightarrow> QueryExeInfo list \<Rightarrow> string
     \<Rightarrow> (64 word \<times> combinedQueryExeInfo) list" where
  "combineQueryExeInfos dstMap [] host = dstMap"
| "combineQueryExeInfos dstMap (info # exeInfosOnStore) host =
     combineQueryExeInfos (combineOne dstMap host info) exeInfosOnStore host"

text \<open>
  The data nodes and the storage transport, as far as the query view and the kill
  request use them.
\<close>

record DataNode =
  ID :: "64 word"
  Host :: string

record QueryStore =
  DataNodes :: "DataNode list \<times> error option"
  GetQueriesOnNode :: "64 word \<Rightarrow> QueryExeInfo list \<times> error option"
  KillQueryOnNode :: "64 word \<Rightarrow> 64 word \<Rightarrow> error option"


text \<open>The loop \<^verbatim>\<open>for i, infos := range infosOnAllStore\<close>, over the pairs of host and reports.\<close>

fun combineAll ::
  "(64 word \<times> combinedQueryExeInfo) list \<Rightarrow> (string \<times> QueryExeInfo list) list
     \<Rightarrow> (64 word \<times> combinedQueryExeInfo) list" where
  "combineAll resMap [] = resMap"
| "combineAll resMap ((host, infos) # rest) =
     combineAll (combineQueryExeInfos resMap infos host) rest"




section \<open>Notions used to state the properties of the running-query view\<close>

text \<open>
  The reports folded into the entry of a query id, in the order of their arrival: a
  report that creates the entry starts the list anew, a report with the entry's statement
  text is added, a report that is filtered out is not.
\<close>

definition foldOne ::
  "(64 word \<times> combinedQueryExeInfo) list \<Rightarrow> (64 word \<Rightarrow> QueryExeInfo list) \<Rightarrow> QueryExeInfo
     \<Rightarrow> (64 word \<Rightarrow> QueryExeInfo list)" where
  "foldOne dstMap folded info =
     (case map_of dstMap (QueryID info) of
        Some cmbInfo \<Rightarrow>
          if stmt cmbInfo = Stmt info
          then folded(QueryID info := folded (QueryID info) @ [info])
          else if BeginTime info \<le> beginTime cmbInfo then folded
          else folded(QueryID info := [info])
      | None \<Rightarrow> folded(QueryID info := [info]))"

text \<open>The reports of all nodes in the order in which they are combined, each with its host.\<close>

definition reportsInOrder :: "(string \<times> QueryExeInfo list) list \<Rightarrow> (string \<times> QueryExeInfo) list" where
  "reportsInOrder perNode = concat (map (\<lambda>(host, infos). map (Pair host) infos) perNode)"

fun foldedRun ::
  "(64 word \<times> combinedQueryExeInfo) list \<times> (64 word \<Rightarrow> QueryExeInfo list)
     \<Rightarrow> (string \<times> QueryExeInfo) list
     \<Rightarrow> (64 word \<times> combinedQueryExeInfo) list \<times> (64 word \<Rightarrow> QueryExeInfo list)" where
  "foldedRun st [] = st"
| "foldedRun (dstMap, folded) ((host, info) # rest) =
     foldedRun (combineOne dstMap host info, foldOne dstMap folded info) rest"

definition foldedInto :: "(string \<times> QueryExeInfo list) list \<Rightarrow> 64 word \<Rightarrow> QueryExeInfo list" where
  "foldedInto perNode = snd (foldedRun ([], \<lambda>q. []) (reportsInOrder perNode))"

text \<open>What holds of an entry and of the reports folded into it.\<close>

definition entryInv ::
  "(64 word \<times> combinedQueryExeInfo) list \<times> (64 word \<Rightarrow> QueryExeInfo list) \<Rightarrow> bool" where
  "entryInv st =
     (\<forall>q e. map_of (fst st) q = Some e \<longrightarrow>
        snd st q \<noteq> [] \<and>
        beginTime e = Min (BeginTime ` set (snd st q)) \<and>
        (\<forall>i \<in> set (snd st q). QueryID i = q \<and> Stmt i = stmt e))"








section \<open>MergeMeasurementsNames\<close>

text \<open>
  A \<^verbatim>\<open>[]byte\<close>. Lists of bytes are ordered as \<^verbatim>\<open>bytes.Compare\<close> orders them: by the
  first byte that differs, read as an unsigned number, a proper prefix first (the order
  of lists over the order of 8-bit words).
\<close>

type_synonym bytes = "8 word list"

text \<open>
  The fields of \<^verbatim>\<open>netstorage.ExecuteStatementMessage\<close> that the merge reads
  (\<open>MsgResult\<close> is its \<^verbatim>\<open>Result\<close>).
\<close>

record ExecuteStatementMessage =
  StatementType :: string
  MsgResult :: bytes

text \<open>
  The first loop: the names of all nodes, in the order in which the map of the messages
  is iterated (the order of the list). The first argument is \<^verbatim>\<open>json.Unmarshal\<close> into
  a \<^verbatim>\<open>[][]byte\<close>. The error is that of \<^verbatim>\<open>fmt.Errorf\<close>.
\<close>

fun gatherNames ::
  "(bytes \<Rightarrow> bytes list \<times> error option) \<Rightarrow> (64 word \<times> ExecuteStatementMessage) list
     \<Rightarrow> bytes list \<Rightarrow> error + bytes list" where
  "gatherNames Unmarshal [] clusterNames = Inr clusterNames"
| "gatherNames Unmarshal ((nodeID, m) # rest) clusterNames =
     (if length (MsgResult m) = 0 then gatherNames Unmarshal rest clusterNames
      else
        (case Unmarshal (MsgResult m) of
           (names, Some err) \<Rightarrow>
             Inl \<lparr>errno = None,
                  msg = ''Unmarshal '' @ StatementType m @ '' json bytes failed: '' @ msg err @
                        [CHR 0x0A]\<rparr>
         | (names, None) \<Rightarrow>
             gatherNames Unmarshal rest
               (if length names > 0 then clusterNames @ names else clusterNames)))"

text \<open>The second loop: \<^verbatim>\<open>retString[string(name)] = true\<close>.\<close>

fun markNames :: "bytes list \<Rightarrow> bytes list \<Rightarrow> bytes list" where
  "markNames retString [] = retString"
| "markNames retString (name # clusterNames) =
     markNames (insertKey name retString) clusterNames"

text \<open>
  \<^verbatim>\<open>MergeMeasurementsNames\<close>; \<open>seed\<close> is the order in which \<^verbatim>\<open>retString\<close> is iterated.
  \<^verbatim>\<open>sort.Stable\<close> is a stable sort by \<^verbatim>\<open>Less\<close>, which is \<^verbatim>\<open>bytes.Compare(..) < 0\<close>.
\<close>

definition MergeMeasurementsNames ::
  "(bytes \<Rightarrow> bytes list \<times> error option) \<Rightarrow> nat list \<Rightarrow> (64 word \<times> ExecuteStatementMessage) list
     \<Rightarrow> error option \<times> bytes list" where
  "MergeMeasurementsNames Unmarshal seed otherNodeNamesMap =
     (case gatherNames Unmarshal otherNodeNamesMap [] of
        Inl err \<Rightarrow> (Some err, [])
      | Inr clusterNames \<Rightarrow>
          (let retString = markNames [] clusterNames;
               uniqueStrings = shuffle seed retString
           in (None, sort uniqueStrings)))"

section \<open>Notions used to state the properties of the merge\<close>

text \<open>The name list of one node, and whether the node's reply can be decoded.\<close>

definition nodeNames :: "(bytes \<Rightarrow> bytes list \<times> error option) \<Rightarrow> ExecuteStatementMessage \<Rightarrow> bytes list" where
  "nodeNames Unmarshal m = (if MsgResult m = [] then [] else fst (Unmarshal (MsgResult m)))"

definition decodes :: "(bytes \<Rightarrow> bytes list \<times> error option) \<Rightarrow> ExecuteStatementMessage \<Rightarrow> bool" where
  "decodes Unmarshal m = (MsgResult m = [] \<or> snd (Unmarshal (MsgResult m)) = None)"

definition allNames ::
  "(bytes \<Rightarrow> bytes list \<times> error option) \<Rightarrow> (64 word \<times> ExecuteStatementMessage) list \<Rightarrow> bytes set" where
  "allNames Unmarshal ms = (\<Union>m \<in> snd ` set ms. set (nodeNames Unmarshal m))"

section \<open>executeKillQuery\<close>

text \<open>
  Values of the \<^verbatim>\<open>meta2\<close> and \<^verbatim>\<open>errno\<close> packages that are declared outside this file:
  the error for an unsupported command, the code of "query not found", and the error
  that \<^verbatim>\<open>errno.NewError\<close> builds from a code and a query id.
\<close>

record KillDeps =
  ErrUnsupportCommand :: error
  ErrQueryNotFound :: nat
  NewError :: "nat \<Rightarrow> 64 word \<Rightarrow> error"

text \<open>
  \<^verbatim>\<open>errors.As(err, &wrapErr) && errno.Equal(wrapErr, errno.ErrQueryNotFound)\<close>; on
  \<^verbatim>\<open>nil\<close>, \<^verbatim>\<open>errors.As\<close> is false.
\<close>

definition isQueryNotFound :: "KillDeps \<Rightarrow> error option \<Rightarrow> bool" where
  "isQueryNotFound K err =
     (case err of None \<Rightarrow> False | Some e \<Rightarrow> errno e = Some (ErrQueryNotFound K))"

text \<open>
  The goroutines share two variables of the enclosing function, and nothing orders
  their accesses (there is no mutex and no atomic operation): \<^verbatim>\<open>err\<close>, which every
  goroutine assigns (\<^verbatim>\<open>err = e.NetStorage.KillQueryOnNode(..)\<close>) and then reads twice
  (\<^verbatim>\<open>err != nil\<close>, \<^verbatim>\<open>errors.As(err, ..)\<close>), and \<^verbatim>\<open>notFoundCount\<close>, which
  \<^verbatim>\<open>notFoundCount++\<close> reads and then writes. A goroutine is therefore a sequence of
  steps, one for each access to a shared variable:
  \<^item> \<open>Calling\<close>: it calls the node and assigns the result to \<^verbatim>\<open>err\<close>;
  \<^item> \<open>Testing\<close>: it reads \<^verbatim>\<open>err\<close> for \<^verbatim>\<open>err != nil\<close>;
  \<^item> \<open>Matching\<close>: it reads \<^verbatim>\<open>err\<close> for \<^verbatim>\<open>errors.As\<close>;
  \<^item> \<open>Loading\<close>: it reads \<^verbatim>\<open>notFoundCount\<close>;
  \<^item> \<open>Storing v\<close>: it has read \<open>v\<close> and writes \<open>v + 1\<close>;
  \<^item> \<open>Finished\<close>: it has returned.
\<close>

datatype gstate = Calling | Testing | Matching | Loading | Storing nat | Finished

record KillState =
  goroutines :: "gstate list"
  errVar :: "error option"
  notFoundCount :: nat

text \<open>One step of the goroutine with index \<open>i\<close> (the one started for \<open>nodes ! i\<close>).\<close>

definition killStep ::
  "KillDeps \<Rightarrow> QueryStore \<Rightarrow> 64 word \<Rightarrow> DataNode list \<Rightarrow> KillState \<Rightarrow> nat \<Rightarrow> KillState" where
  "killStep K Q queryID nodes s i =
     (if i < length (goroutines s) then
        (case goroutines s ! i of
           Calling \<Rightarrow>
             s\<lparr>goroutines := (goroutines s)[i := Testing],
               errVar := KillQueryOnNode Q (ID (nodes ! i)) queryID\<rparr>
         | Testing \<Rightarrow>
             s\<lparr>goroutines :=
                 (goroutines s)[i := (if errVar s \<noteq> None then Matching else Finished)]\<rparr>
         | Matching \<Rightarrow>
             s\<lparr>goroutines :=
                 (goroutines s)[i := (if isQueryNotFound K (errVar s) then Loading
                                      else Finished)]\<rparr>
         | Loading \<Rightarrow> s\<lparr>goroutines := (goroutines s)[i := Storing (notFoundCount s)]\<rparr>
         | Storing v \<Rightarrow> s\<lparr>goroutines := (goroutines s)[i := Finished], notFoundCount := v + 1\<rparr>
         | Finished \<Rightarrow> s)
      else s)"

text \<open>
  The goroutines run by a schedule: the list of the indices of the goroutines that take
  the next step. \<^verbatim>\<open>wg.Wait()\<close> returns when all goroutines have returned: after the
  schedule, every goroutine takes the steps it has left (five are enough), one goroutine
  after the other. With the empty schedule the goroutines run one after the other.
\<close>

definition runKill ::
  "KillDeps \<Rightarrow> QueryStore \<Rightarrow> 64 word \<Rightarrow> DataNode list \<Rightarrow> nat list \<Rightarrow> KillState" where
  "runKill K Q queryID nodes schedule =
     foldl (killStep K Q queryID nodes)
       \<lparr>goroutines = replicate (length nodes) Calling, errVar = None, notFoundCount = 0\<rparr>
       (schedule @ concat (map (replicate 5) [0..<length nodes]))"

text \<open>
  \<^verbatim>\<open>executeKillQuery\<close>; the arguments are \<^verbatim>\<open>stmt.Host\<close>, \<^verbatim>\<open>stmt.QueryID\<close> and the
  schedule of the goroutines.
\<close>

definition executeKillQuery ::
  "KillDeps \<Rightarrow> QueryStore \<Rightarrow> string \<Rightarrow> 64 word \<Rightarrow> nat list \<Rightarrow> error option" where
  "executeKillQuery K Q host queryID schedule =
     (if host \<noteq> [] then Some (ErrUnsupportCommand K)
      else
        (case DataNodes Q of
           (nodes, Some err) \<Rightarrow> Some err
         | (nodes, None) \<Rightarrow>
             if notFoundCount (runKill K Q queryID nodes schedule) = length nodes
             then Some (NewError K (ErrQueryNotFound K) queryID)
             else None))"

text \<open>The node's reply to the kill request is "query not found".\<close>

definition reportsNotFound :: "KillDeps \<Rightarrow> QueryStore \<Rightarrow> 64 word \<Rightarrow> DataNode \<Rightarrow> bool" where
  "reportsNotFound K Q queryID node = isQueryNotFound K (KillQueryOnNode Q (ID node) queryID)"

section \<open>Example inputs\<close>

definition deps0 :: deps where
  "deps0 = \<lparr>IsRetriedError = (\<lambda>e. errno e = Some 1),
            IsRetryErrorForPtView = (\<lambda>e. errno e = Some 2),
            DMLTimeOutSecond = 30,
            DMLRetryInternalMillisecond = 200,
            ErrDeclareEmptyCollection = \<lparr>errno = None, msg = ''declare empty collection''\<rparr>\<rparr>"

definition world0 :: world where
  "world0 = \<lparr>now = 0, calls = 0, sleeps = [], sent = [], sendCalls = 0, aborted = False\<rparr>"

definition errInvalid :: error where
  "errInvalid = \<lparr>errno = Some 7, msg = ''invalid name''\<rparr>"

definition envFail :: "(rows \<times> error option) env" where
  "envFail = \<lparr>outcome = (\<lambda>k. ([], Some errInvalid)), cost = (\<lambda>k. 5), lag = (\<lambda>k. 0),
              sendErr = (\<lambda>k. None)\<rparr>"

definition errPtView :: error where
  "errPtView = \<lparr>errno = Some 2, msg = ''pt view changed''\<rparr>"

text \<open>A SELECT that fails twice with a pt-view error and then succeeds.\<close>

definition envSelect :: "(error option) env" where
  "envSelect = \<lparr>outcome = (\<lambda>k. if k < 2 then Some errPtView else None), cost = (\<lambda>k. 5),
                lag = (\<lambda>k. 0), sendErr = (\<lambda>k. None)\<rparr>"

text \<open>A budget of one second with an interval of 400 milliseconds.\<close>

definition deps1 :: deps where
  "deps1 = \<lparr>IsRetriedError = (\<lambda>e. errno e = Some 1),
            IsRetryErrorForPtView = (\<lambda>e. errno e = Some 2),
            DMLTimeOutSecond = 1,
            DMLRetryInternalMillisecond = 400,
            ErrDeclareEmptyCollection = \<lparr>errno = None, msg = ''declare empty collection''\<rparr>\<rparr>"

definition errPtNotFound :: error where
  "errPtNotFound = \<lparr>errno = Some 1, msg = ''pt not found''\<rparr>"

text \<open>An executor that fails with a retriable error at every call.\<close>

definition envRetry :: "(rows \<times> error option) env" where
  "envRetry = \<lparr>outcome = (\<lambda>k. ([], Some errPtNotFound)), cost = (\<lambda>k. 5), lag = (\<lambda>k. 0),
               sendErr = (\<lambda>k. None)\<rparr>"

text \<open>
  A plan construction that fails twice with a retriable error and then yields a plan
  that emits no batch.
\<close>

definition envCreate :: "select_outcome env" where
  "envCreate =
     \<lparr>outcome = (\<lambda>k. if k < 2 then SelectReturns None (Some errPtNotFound)
                       else SelectReturns (Some \<lparr>events = [], execErr = None\<rparr>) None),
      cost = (\<lambda>k. 5), lag = (\<lambda>k. 0), sendErr = (\<lambda>k. None)\<rparr>"

definition errDbNotFound :: error where
  "errDbNotFound = \<lparr>errno = Some 3, msg = ''database not found: db0''\<rparr>"

text \<open>A metadata store with the database \<^verbatim>\<open>db1\<close> and its policy \<^verbatim>\<open>autogen\<close> only.\<close>

definition meta0 :: MetaClient where
  "meta0 =
     \<lparr>MarkDatabaseDelete = (\<lambda>n. if n = ''db1'' then None else Some errDbNotFound),
      Database =
        (\<lambda>n. if n = ''db1''
              then (Some \<lparr>dbName = ''db1'',
                          RetentionPolicy =
                            (\<lambda>r. if r = ''autogen'' then Some \<lparr>rpName = ''autogen''\<rparr>
                                  else None)\<rparr>, None)
              else (None, Some errDbNotFound)),
      MarkRetentionPolicyDelete = (\<lambda>d r. None)\<rparr>"

text \<open>Two nodes; the first has two series, the second one.\<close>

definition store0 :: SeriesStore where
  "store0 =
     \<lparr>MatchMeasurements = ([''cpu''], None),
      DBNodes = [(1, [0]), (2, [1])],
      ShowSeries = (\<lambda>n pts names. if n = 1 then ([''cpu,host=b'', ''cpu,host=a''], None)
                                   else ([''cpu,host=c''], None))\<rparr>"

text \<open>
  Two nodes. Host A runs query 7 since t = 100 and has killed query 8; host B has killed
  queries 7 (begun at 90, by its report) and 8, and runs query 9.
\<close>

definition storeQ :: QueryStore where
  "storeQ =
     \<lparr>DataNodes = ([\<lparr>ID = 1, Host = ''A''\<rparr>, \<lparr>ID = 2, Host = ''B''\<rparr>], None),
      GetQueriesOnNode =
        (\<lambda>n. if n = 1
              then ([\<lparr>QueryID = 7, Stmt = ''select 1'', InfoDatabase = ''db'', BeginTime = 100,
                       RunState = Running\<rparr>,
                     \<lparr>QueryID = 8, Stmt = ''select 2'', InfoDatabase = ''db'', BeginTime = 50,
                       RunState = Killed\<rparr>], None)
              else ([\<lparr>QueryID = 7, Stmt = ''select 1'', InfoDatabase = ''db'', BeginTime = 90,
                       RunState = Killed\<rparr>,
                     \<lparr>QueryID = 8, Stmt = ''select 2'', InfoDatabase = ''db'', BeginTime = 60,
                       RunState = Killed\<rparr>,
                     \<lparr>QueryID = 9, Stmt = ''select 3'', InfoDatabase = ''db'', BeginTime = 10,
                       RunState = Running\<rparr>], None)),
      KillQueryOnNode = (\<lambda>n q. None)\<rparr>"


text \<open>
  A decoder that knows two replies, and three nodes: the names b, a from the first, a, c
  from the second, and an empty reply from the third.
\<close>

definition unmarshal0 :: "bytes \<Rightarrow> bytes list \<times> error option" where
  "unmarshal0 b =
     (if b = [1] then ([[0x62], [0x61]], None)
      else if b = [2] then ([[0x61], [0x63]], None)
      else ([], Some \<lparr>errno = None, msg = ''unexpected end of JSON input''\<rparr>))"

definition messages0 :: "(64 word \<times> ExecuteStatementMessage) list" where
  "messages0 =
     [(1, \<lparr>StatementType = ''ShowMeasurementsStatement'', MsgResult = [1]\<rparr>),
      (2, \<lparr>StatementType = ''ShowMeasurementsStatement'', MsgResult = [2]\<rparr>),
      (3, \<lparr>StatementType = ''ShowMeasurementsStatement'', MsgResult = []\<rparr>)]"

definition killDeps0 :: KillDeps where
  "killDeps0 =
     \<lparr>ErrUnsupportCommand = \<lparr>errno = None, msg = ''unsupported command''\<rparr>,
      ErrQueryNotFound = 9,
      NewError = (\<lambda>c q. \<lparr>errno = Some c, msg = ''query not found''\<rparr>)\<rparr>"

definition errQueryNotFound :: error where
  "errQueryNotFound = \<lparr>errno = Some 9, msg = ''query not found''\<rparr>"

text \<open>Two nodes that both answer "query not found".\<close>

definition storeNotFound :: QueryStore where
  "storeNotFound =
     \<lparr>DataNodes = ([\<lparr>ID = 1, Host = ''A''\<rparr>, \<lparr>ID = 2, Host = ''B''\<rparr>], None),
      GetQueriesOnNode = (\<lambda>n. ([], None)),
      KillQueryOnNode = (\<lambda>n q. Some errQueryNotFound)\<rparr>"

text \<open>Two nodes: the first kills the query, the second answers "query not found".\<close>

definition storeOneAck :: QueryStore where
  "storeOneAck =
     \<lparr>DataNodes = ([\<lparr>ID = 1, Host = ''A''\<rparr>, \<lparr>ID = 2, Host = ''B''\<rparr>], None),
      GetQueriesOnNode = (\<lambda>n. ([], None)),
      KillQueryOnNode = (\<lambda>n q. if n = 1 then None else Some errQueryNotFound)\<rparr>"

chapter \<open>Properties\<close>

section \<open>Basic facts\<close>

lemma Sleep_simps:
  "now (Sleep E d w) = now w + d + lag E (length (sleeps w))"
  "calls (Sleep E d w) = calls w"
  "sleeps (Sleep E d w) = sleeps w @ [d]"
  "sent (Sleep E d w) = sent w"
  "sendCalls (Sleep E d w) = sendCalls w"
  "aborted (Sleep E d w) = aborted w"
  by (simp_all add: Sleep_def)

text \<open>An iteration over a Go map visits every key once.\<close>

lemma mset_shuffle: "mset (shuffle seed xs) = mset xs"
proof (induction seed xs rule: shuffle.induct)
  case (1 seed)
  then show ?case by simp
next
  case (2 x xs)
  then show ?case by simp
next
  case (3 s seed x xs)
  let ?ys = "x # xs"
  let ?i = "s mod length ?ys"
  have i: "?i < length ?ys" by simp
  have "mset (take ?i ?ys @ drop (Suc ?i) ?ys) + {#?ys ! ?i#} = mset ?ys"
    using id_take_nth_drop[OF i]
    by (metis add_mset_add_single mset.simps(2) mset_append union_mset_add_mset_right)
  then show ?case using 3 by (simp add: Let_def)
qed

text \<open>An \<^verbatim>\<open>int64\<close> result that is in range is exact.\<close>

lemma wrap64_in_range: "- (2 ^ 63) \<le> x \<Longrightarrow> x < 2 ^ 63 \<Longrightarrow> wrap64 x = x"
  by (simp add: wrap64_def)

text \<open>
  The order of byte strings: a proper prefix comes first, and otherwise the first bytes
  that differ decide, as unsigned numbers.
\<close>

lemma bytes_order:
  "([] :: bytes) < y # ys"
  "\<not> (xs :: bytes) < []"
  "((x :: 8 word) # xs < y # ys) = (x < y \<or> x = y \<and> xs < ys)"
  "((x :: 8 word) < y) = (unat x < unat y)"
  by (simp_all add: word_less_nat_alt)

section \<open>retryExecuteStatement: a non-retryable error ends the loop at once\<close>

lemma dispatch_invokes:
  assumes "stm \<noteq> OtherStatement" and "stm \<noteq> ExplainStatement False"
    and "outcome E (calls w) = (r, err')"
  shows "dispatch E stm rows err w =
           Some (if assignsRows stm then r else rows, err',
                 w\<lparr>now := now w + cost E (calls w), calls := Suc (calls w)\<rparr>)"
  using assms by (cases stm) (auto simp: dispatch_def invoke_def split: bool.splits)

text \<open>
  Claim C2. When the first attempt of the per-statement executor returns an error that
  is neither in the retriable class nor an in-flight delete marker, the wrapper returns
  that error; the final state has exactly one more call than the initial one, the time
  of that call has passed and nothing else, and no sleep was requested. (The budget
  \<^verbatim>\<open>DMLTimeOutSecond\<close> is positive, so that a first attempt is made.)
\<close>

theorem retryExecuteStatement_nonretryable_first:
  assumes "0 < DMLTimeOutSecond D"
    and "stm \<noteq> OtherStatement" and "stm \<noteq> ExplainStatement False"
    and "outcome E (calls w) = (r, Some e)"
    and "\<not> IsRetriedError D e" and "\<not> Contains (msg e) ''repeat mark delete''"
  shows "\<exists>w'. retryExecuteStatement D E stm w =
                 Some (Returned (if assignsRows stm then r else [], Some e), w') \<and>
              w' = w\<lparr>now := now w + cost E (calls w), calls := Suc (calls w)\<rparr> \<and>
              calls w' = Suc (calls w) \<and> sleeps w' = sleeps w"
proof -
  have "dispatch E stm [] None w =
          Some (if assignsRows stm then r else [], Some e,
                w\<lparr>now := now w + cost E (calls w), calls := Suc (calls w)\<rparr>)"
    using assms(2,3,4) by (rule dispatch_invokes)
  then have "retryLoop D E stm (now w) 0 [] None w =
          Some (Returned (if assignsRows stm then r else [], Some e),
                w\<lparr>now := now w + cost E (calls w), calls := Suc (calls w)\<rparr>)"
    using assms(1,5,6) by (subst retryLoop.simps) (simp add: retriable_def)
  then show ?thesis by (simp add: retryExecuteStatement_def)
qed

theorem retryExecuteStatement_nonretryable_first_witness:
  "retryExecuteStatement deps0 envFail DropDatabaseStatement world0 =
     Some (Returned ([], Some errInvalid), world0\<lparr>now := 5, calls := 1\<rparr>)"
  using retryExecuteStatement_nonretryable_first
          [of deps0 DropDatabaseStatement envFail world0 "[]" errInvalid]
  by (auto simp: deps0_def envFail_def world0_def errInvalid_def)

section \<open>retryExecuteSelectStatement: at most eight attempts, doubling backoff\<close>

declare retrySelectLoop.simps [simp del]

lemma retrySelectLoop_stop:
  assumes "i < maxRetrySelectCount" and "\<not> retriedSelect D E (calls w)"
  shows "retrySelectLoop D E i err w =
           (outcome E (calls w), w\<lparr>now := now w + cost E (calls w), calls := Suc (calls w)\<rparr>)"
  using assms
  by (subst retrySelectLoop.simps) (auto simp: invoke_def retriedSelect_def split: option.splits)

lemma retrySelectLoop_retry:
  assumes "i < maxRetrySelectCount" and "retriedSelect D E (calls w)"
  shows "retrySelectLoop D E i err w =
           retrySelectLoop D E (i + 1) (outcome E (calls w))
             (Sleep E (retrySelectInterval * 2 ^ i)
                (w\<lparr>now := now w + cost E (calls w), calls := Suc (calls w)\<rparr>))"
  using assms
  by (subst retrySelectLoop.simps) (auto simp: invoke_def retriedSelect_def split: option.splits)

lemma retrySelectLoop_done:
  "\<not> i < maxRetrySelectCount \<Longrightarrow> retrySelectLoop D E i err w = (err, w)"
  by (subst retrySelectLoop.simps) simp

text \<open>The loop from index \<open>i\<close>: \<open>j\<close> more failed attempts that are retried, then one that is not.\<close>

lemma retrySelectLoop_first_stop:
  assumes "i + j < maxRetrySelectCount"
    and "\<forall>m<j. retriedSelect D E (calls w + m)"
    and "\<not> retriedSelect D E (calls w + j)"
    and "retrySelectLoop D E i err w = (r, w')"
  shows "r = outcome E (calls w + j) \<and> calls w' = calls w + j + 1 \<and>
         sleeps w' = sleeps w @ map (\<lambda>m. retrySelectInterval * 2 ^ m) [i..<i + j] \<and>
         sent w' = sent w"
  using assms
proof (induction j arbitrary: i err w)
  case 0
  then show ?case by (auto simp: retrySelectLoop_stop)
next
  case (Suc j)
  let ?w1 = "Sleep E (retrySelectInterval * 2 ^ i)
                (w\<lparr>now := now w + cost E (calls w), calls := Suc (calls w)\<rparr>)"
  have i: "i < maxRetrySelectCount" using Suc.prems(1) by simp
  have r0: "retriedSelect D E (calls w)" using Suc.prems(2) by force
  have c1: "calls ?w1 = Suc (calls w)" by (simp add: Sleep_simps)
  have step: "retrySelectLoop D E (i + 1) (outcome E (calls w)) ?w1 = (r, w')"
    using Suc.prems(4) retrySelectLoop_retry[OF i r0] by simp
  have a: "(i + 1) + j < maxRetrySelectCount" using Suc.prems(1) by simp
  have b: "\<forall>m<j. retriedSelect D E (calls ?w1 + m)"
  proof (intro allI impI)
    fix m assume "m < j"
    then have "Suc m < Suc j" by simp
    then have "retriedSelect D E (calls w + Suc m)" using Suc.prems(2) by blast
    then show "retriedSelect D E (calls ?w1 + m)" by (simp add: c1)
  qed
  have c: "\<not> retriedSelect D E (calls ?w1 + j)" using Suc.prems(3) by (simp add: c1)
  from Suc.IH[OF a b c step]
  show ?case by (simp add: c1 Sleep_simps upt_conv_Cons)
qed

lemma retrySelectLoop_all_retried:
  assumes "i + j = maxRetrySelectCount" and "0 < j"
    and "\<forall>m<j. retriedSelect D E (calls w + m)"
    and "retrySelectLoop D E i err w = (r, w')"
  shows "r = outcome E (calls w + j - 1) \<and> calls w' = calls w + j \<and>
         sleeps w' = sleeps w @ map (\<lambda>m. retrySelectInterval * 2 ^ m) [i..<i + j] \<and>
         sent w' = sent w"
  using assms
proof (induction j arbitrary: i err w)
  case 0
  then show ?case by simp
next
  case (Suc j)
  let ?w1 = "Sleep E (retrySelectInterval * 2 ^ i)
                (w\<lparr>now := now w + cost E (calls w), calls := Suc (calls w)\<rparr>)"
  have i: "i < maxRetrySelectCount" using Suc.prems(1) by simp
  have r0: "retriedSelect D E (calls w)" using Suc.prems(3) by force
  have c1: "calls ?w1 = Suc (calls w)" by (simp add: Sleep_simps)
  have step: "retrySelectLoop D E (i + 1) (outcome E (calls w)) ?w1 = (r, w')"
    using Suc.prems(4) retrySelectLoop_retry[OF i r0] by simp
  show ?case
  proof (cases "j = 0")
    case True
    then have "\<not> i + 1 < maxRetrySelectCount" using Suc.prems(1) by simp
    then have "retrySelectLoop D E (i + 1) (outcome E (calls w)) ?w1 = (outcome E (calls w), ?w1)"
      by (rule retrySelectLoop_done)
    then show ?thesis using step True by (auto simp: Sleep_simps)
  next
    case False
    have a: "(i + 1) + j = maxRetrySelectCount" using Suc.prems(1) by simp
    have b: "\<forall>m<j. retriedSelect D E (calls ?w1 + m)"
    proof (intro allI impI)
      fix m assume "m < j"
      then have "Suc m < Suc j" by simp
      then have "retriedSelect D E (calls w + Suc m)" using Suc.prems(3) by blast
      then show "retriedSelect D E (calls ?w1 + m)" by (simp add: c1)
    qed
    from Suc.IH[OF a _ b step] False
    show ?thesis by (simp add: c1 Sleep_simps upt_conv_Cons)
  qed
qed

text \<open>
  Claim C8. \<^verbatim>\<open>retryExecuteSelectStatement\<close> calls \<^verbatim>\<open>executeSelectStatement\<close> at most
  8 times. If the attempts with index below \<open>j\<close> fail with a pt-view error and the attempt
  with index \<open>j\<close> (below 8) succeeds or fails with another error, that outcome is returned
  after \<open>j + 1\<close> calls, and the sleeps requested are
  \<^verbatim>\<open>retrySelectInterval\<close> times \<open>2 ^ i\<close> for \<open>i = 0, ..., j - 1\<close>, one after each failed
  attempt. If all 8 attempts fail with a pt-view error, the last error is returned after
  8 calls and 8 sleeps.
\<close>

theorem retryExecuteSelectStatement_backoff:
  assumes "retryExecuteSelectStatement D E w = (err, w')"
  shows "calls w' \<le> calls w + maxRetrySelectCount \<and> maxRetrySelectCount = 8 \<and>
         (\<forall>j. (\<forall>m<j. retriedSelect D E (calls w + m)) \<and> \<not> retriedSelect D E (calls w + j) \<and>
               j < maxRetrySelectCount \<longrightarrow>
              err = outcome E (calls w + j) \<and> calls w' = calls w + j + 1 \<and>
              sleeps w' = sleeps w @ map (\<lambda>i. retrySelectInterval * 2 ^ i) [0..<j]) \<and>
         ((\<forall>m<maxRetrySelectCount. retriedSelect D E (calls w + m)) \<longrightarrow>
              err = outcome E (calls w + 7) \<and> calls w' = calls w + 8 \<and>
              sleeps w' = sleeps w @ map (\<lambda>i. retrySelectInterval * 2 ^ i) [0..<8])"
proof -
  have loop: "retrySelectLoop D E 0 None w = (err, w')"
    using assms by (simp add: retryExecuteSelectStatement_def)
  have A: "\<forall>j. (\<forall>m<j. retriedSelect D E (calls w + m)) \<and> \<not> retriedSelect D E (calls w + j) \<and>
               j < maxRetrySelectCount \<longrightarrow>
              err = outcome E (calls w + j) \<and> calls w' = calls w + j + 1 \<and>
              sleeps w' = sleeps w @ map (\<lambda>i. retrySelectInterval * 2 ^ i) [0..<j]"
    using retrySelectLoop_first_stop[where i = 0, OF _ _ _ loop] by auto
  have B: "(\<forall>m<maxRetrySelectCount. retriedSelect D E (calls w + m)) \<longrightarrow>
              err = outcome E (calls w + 7) \<and> calls w' = calls w + 8 \<and>
              sleeps w' = sleeps w @ map (\<lambda>i. retrySelectInterval * 2 ^ i) [0..<8]"
    using retrySelectLoop_all_retried[where i = 0 and j = 8, OF _ _ _ loop]
    by (auto simp: maxRetrySelectCount_def add.commute)
  have C: "calls w' \<le> calls w + maxRetrySelectCount"
  proof (cases "\<forall>m<maxRetrySelectCount. retriedSelect D E (calls w + m)")
    case True
    then show ?thesis using B by (simp add: maxRetrySelectCount_def)
  next
    case False
    then have ex: "\<exists>m. m < maxRetrySelectCount \<and> \<not> retriedSelect D E (calls w + m)" by blast
    define j where "j = (LEAST m. m < maxRetrySelectCount \<and> \<not> retriedSelect D E (calls w + m))"
    have j: "j < maxRetrySelectCount \<and> \<not> retriedSelect D E (calls w + j)"
      unfolding j_def using ex by (rule LeastI_ex)
    have "\<forall>m<j. retriedSelect D E (calls w + m)"
    proof (intro allI impI)
      fix m assume m: "m < j"
      show "retriedSelect D E (calls w + m)"
      proof (rule ccontr)
        assume "\<not> retriedSelect D E (calls w + m)"
        then have "m < maxRetrySelectCount \<and> \<not> retriedSelect D E (calls w + m)" using m j by simp
        then have "j \<le> m" unfolding j_def by (rule Least_le)
        then show False using m by simp
      qed
    qed
    then have "calls w' = calls w + j + 1" using A j by blast
    then show ?thesis using j by simp
  qed
  show ?thesis using A B C by (simp add: maxRetrySelectCount_def)
qed

theorem retryExecuteSelectStatement_backoff_witness:
  "fst (retryExecuteSelectStatement deps0 envSelect world0) = None \<and>
   calls (snd (retryExecuteSelectStatement deps0 envSelect world0)) = 3 \<and>
   sleeps (snd (retryExecuteSelectStatement deps0 envSelect world0)) = [100000000, 200000000]"
proof -
  obtain err w' where r: "retryExecuteSelectStatement deps0 envSelect world0 = (err, w')"
    by (cases "retryExecuteSelectStatement deps0 envSelect world0") auto
  have a: "\<forall>m<2. retriedSelect deps0 envSelect (calls world0 + m)"
    by (simp add: retriedSelect_def envSelect_def deps0_def errPtView_def world0_def)
  have b: "\<not> retriedSelect deps0 envSelect (calls world0 + 2)"
    by (simp add: retriedSelect_def envSelect_def world0_def)
  have c: "(2::nat) < maxRetrySelectCount" by (simp add: maxRetrySelectCount_def)
  from retryExecuteSelectStatement_backoff[OF r] a b c
  have "err = outcome envSelect (calls world0 + 2) \<and> calls w' = calls world0 + 2 + 1 \<and>
        sleeps w' = sleeps world0 @ map (\<lambda>i. retrySelectInterval * 2 ^ i) [0..<2]"
    by blast
  then show ?thesis
    using r by (simp add: envSelect_def world0_def retrySelectInterval_def upt_conv_Cons)
qed

section \<open>The retry loops terminate\<close>

lemma dispatch_None: "dispatch E stm rows err w = None \<Longrightarrow> stm = ExplainStatement False"
  by (cases stm) (auto simp: dispatch_def split: prod.splits bool.splits)

lemma no_attempt:
  "((a::nat) \<le> k \<and> k < a) = False"
  "((a::nat) \<le> k \<and> Suc k < a) = False"
  "((a::nat) \<le> k \<and> Suc k < Suc a) = False"
  by auto

text \<open>A statement that the switch handles is executed by a call of its executor.\<close>

lemma dispatch_call:
  "dispatch E stm rows err w = Some (rows', err', w2) \<Longrightarrow> stm \<noteq> OtherStatement \<Longrightarrow>
     err' = snd (outcome E (calls w)) \<and>
     rows' = (if assignsRows stm then fst (outcome E (calls w)) else rows) \<and>
     w2 = snd (invoke E w)"
  by (cases stm) (auto simp: dispatch_def invoke_def split: prod.splits bool.splits)

lemma invoke_simps:
  "calls (snd (invoke E w)) = Suc (calls w)"
  "now (snd (invoke E w)) = now w + cost E (calls w)"
  by (simp_all add: invoke_def)

text \<open>
  The loop of \<^verbatim>\<open>retryExecuteStatement\<close> from any state. Every pass but one sleeps for a
  positive time inside the budget; the pass that does not is the one with
  \<^verbatim>\<open>retryNum = 0\<close>, and the next pass has \<^verbatim>\<open>retryNum = 1\<close>.
\<close>

lemma retryLoop_post:
  assumes pos: "0 < DMLRetryInternalMillisecond D" and call: "stm \<noteq> OtherStatement"
  shows "\<exists>g w'. retryLoop D E stm start retryNum rows err w = Some (g, w') \<and>
                 loopPost D E stm start rows err w g w'"
proof (induction "2 * (budget D + start - now w) + (if retryNum = 0 then 1 else 0 :: nat)"
        arbitrary: retryNum rows err w rule: less_induct)
  case less
  show ?case
  proof (cases "now w - start < budget D")
    case False
    then have "retryLoop D E stm start retryNum rows err w = Some (Returned (rows, err), w)"
      by (subst retryLoop.simps) (simp add: budget_def)
    moreover have "loopPost D E stm start rows err w (Returned (rows, err)) w"
      using False by (auto simp: loopPost_def no_attempt)
    ultimately show ?thesis by blast
  next
    case inb: True
    let ?i = "DMLRetryInternalMillisecond D * 10 ^ 6"
    define w1 where "w1 = (if retryNum > 0 then Sleep E ?i w else w)"
    have w1c: "calls w1 = calls w" by (simp add: w1_def Sleep_simps)
    have w1n: "now w \<le> now w1" by (simp add: w1_def Sleep_simps)
    have w1s: "retryNum \<noteq> 0 \<Longrightarrow> now w < now w1"
      using pos by (simp add: w1_def Sleep_simps word_greater_zero_iff)
    have w1b: "w1 = w \<or> w1 = Sleep E ?i w" by (simp add: w1_def)
    have unf: "retryLoop D E stm start retryNum rows err w =
         (case dispatch E stm rows err w1 of
              None \<Rightarrow> Some (Panicked, w1)
            | Some (rows', err', w2) \<Rightarrow>
                (case err' of
                   None \<Rightarrow> Some (Returned (rows', None), w2)
                 | Some e \<Rightarrow>
                     if retriable D e
                     then retryLoop D E stm start (retryNum + 1) rows' err' w2
                     else Some (Returned (rows', err'), w2)))"
      unfolding w1_def using inb by (subst retryLoop.simps) (simp add: budget_def Let_def)
    show ?thesis
    proof (cases "dispatch E stm rows err w1")
      case None
      then show ?thesis using unf dispatch_None[OF None] w1c w1n
        by (simp add: loopPost_def no_attempt)
    next
      case (Some t)
      obtain rows' err' w2 where t: "t = (rows', err', w2)" by (cases t) auto
      note d = dispatch_call[OF Some[unfolded t] call]
      have e2: "err' = snd (outcome E (calls w))" using d w1c by simp
      have r2: "rows' = (if assignsRows stm then fst (outcome E (calls w)) else rows)"
        using d w1c by simp
      have w2: "w2 = snd (invoke E w1)" using d by simp
      have w2c: "calls w2 = Suc (calls w)" using w2 w1c by (simp add: invoke_simps)
      have w2n: "now w1 \<le> now w2" using w2 by (simp add: invoke_simps)
      have wb: "\<exists>wb. now wb - start < budget D \<and>
                  (w2 = snd (invoke E wb) \<or> w2 = snd (invoke E (Sleep E ?i wb)))"
        using inb w2 w1b by blast
      have stop: "loopPost D E stm start rows err w (Returned (rows', err')) w2"
        if "\<not> retriedAt D E (calls w)"
        using that e2 r2 w2c w2n w1n wb by (simp add: loopPost_def no_attempt)
      show ?thesis
      proof (cases err')
        case None
        then have "snd (outcome E (calls w)) = None" using e2 by simp
        then have "\<not> retriedAt D E (calls w)" by (simp add: retriedAt_def)
        then show ?thesis using unf Some t None stop by simp
      next
        case (Some e)
        note e = Some
        have oc: "snd (outcome E (calls w)) = Some e" using e2 e by simp
        show ?thesis
        proof (cases "retriable D e")
          case False
          have "retryLoop D E stm start retryNum rows err w = Some (Returned (rows', err'), w2)"
            using unf \<open>dispatch E stm rows err w1 = Some t\<close> t e False by simp
          moreover have "\<not> retriedAt D E (calls w)"
            using oc False by (simp add: retriedAt_def)
          ultimately show ?thesis using stop by blast
        next
          case True
          have r0: "retriedAt D E (calls w)" using oc True by (simp add: retriedAt_def)
          have rec: "retryLoop D E stm start retryNum rows err w =
                       retryLoop D E stm start (retryNum + 1) rows' err' w2"
            using unf \<open>dispatch E stm rows err w1 = Some t\<close> t e True by simp
          have dec: "2 * (budget D + start - now w2) + (if retryNum + 1 = 0 then 1 else 0 :: nat)
                   < 2 * (budget D + start - now w) + (if retryNum = 0 then 1 else 0)"
          proof (cases "retryNum = 0")
            case True
            then show ?thesis using w1n w2n by simp
          next
            case False
            then have "now w < now w2" using w1s w2n by simp
            then have "budget D + start - now w2 < budget D + start - now w"
              using inb by arith
            then show ?thesis using False by auto
          qed
          from less[OF dec] obtain g w' where
            r: "retryLoop D E stm start (retryNum + 1) rows' err' w2 = Some (g, w')" and
            p: "loopPost D E stm start rows' err' w2 g w'" by blast
          have cw: "calls w \<le> calls w'" "now w \<le> now w'" "calls w \<noteq> calls w'"
            using p w2c w2n w1n by (auto simp: loopPost_def no_attempt)
          have "loopPost D E stm start rows err w g w'"
          proof (cases g)
            case Panicked
            then show ?thesis using p cw by (simp add: loopPost_def no_attempt)
          next
            case (Returned x)
            obtain rs er where x: "x = (rs, er)" by (cases x) auto
            have all: "\<forall>k. calls w \<le> k \<and> Suc k < calls w' \<longrightarrow> retriedAt D E k"
            proof (intro allI impI)
              fix k assume k: "calls w \<le> k \<and> Suc k < calls w'"
              show "retriedAt D E k"
              proof (cases "k = calls w")
                case True then show ?thesis using r0 by simp
              next
                case False
                then have "calls w2 \<le> k" using k w2c by simp
                then show ?thesis using p k Returned x by (simp add: loopPost_def no_attempt)
              qed
            qed
            show ?thesis
            proof (cases "calls w' = calls w2")
              case True
              then have q: "w' = w2" "rs = rows'" "er = err'" "budget D \<le> now w2 - start"
                using p Returned x by (simp_all add: loopPost_def no_attempt)
              show ?thesis
                using q all cw e2 r2 w2c wb Returned x by (simp add: loopPost_def no_attempt)
            next
              case False
              then have q: "er = snd (outcome E (calls w' - 1))"
                "rs = (if assignsRows stm then fst (outcome E (calls w' - 1)) else rows')"
                "retriedAt D E (calls w' - 1) \<longrightarrow> budget D \<le> now w' - start"
                "\<exists>wb. now wb - start < budget D \<and>
                       (w' = snd (invoke E wb) \<or> w' = snd (invoke E (Sleep E ?i wb)))"
                using p Returned x by (simp_all add: loopPost_def no_attempt)
              have "rs = (if assignsRows stm then fst (outcome E (calls w' - 1)) else rows)"
                using q(2) r2 by simp
              then show ?thesis
                using q(1,3,4) all cw Returned x by (simp add: loopPost_def no_attempt)
            qed
          qed
          then show ?thesis using rec r by simp
        qed
      qed
    qed
  qed
qed

text \<open>
  A statement of a type that the switch does not handle leaves \<^verbatim>\<open>err\<close> at \<^verbatim>\<open>nil\<close>: the
  first pass returns, and so does the loop whose budget is zero.
\<close>

lemma retryExecuteStatement_OtherStatement:
  "retryExecuteStatement D E OtherStatement w = Some (Returned ([], None), w)"
  unfolding retryExecuteStatement_def
  by (subst retryLoop.simps) (simp add: dispatch_def)

lemma createPipelineExecutor_world:
  "snd (createPipelineExecutor E w) =
     w\<lparr>now := now w + cost E (calls w), calls := Suc (calls w)\<rparr>"
  by (simp add: createPipelineExecutor_def invoke_def split: select_outcome.splits)

lemma createPipelineExecutor_Panicked:
  "fst (createPipelineExecutor E w) = Panicked \<Longrightarrow> outcome E (calls w) = SelectPanics True"
  by (auto simp: createPipelineExecutor_def invoke_def split: select_outcome.splits if_splits)

lemma createPipelineExecutor_result:
  "fst (createPipelineExecutor E w) = Returned (p, err) \<Longrightarrow>
     err = createErr (outcome E (calls w)) \<and> p = createPlan (outcome E (calls w))"
  by (auto simp: createPipelineExecutor_def invoke_def split: select_outcome.splits if_splits)

lemma createPipelineExecutor_invoke: "snd (createPipelineExecutor E w) = snd (invoke E w)"
  by (simp add: createPipelineExecutor_def invoke_def split: select_outcome.splits)

text \<open>
  The loop of \<^verbatim>\<open>retryCreatePipelineExecutor\<close> from any state: a pass is repeated only
  inside the budget and after a sleep of positive length.
\<close>

lemma retryCreateLoop_post:
  assumes pos: "0 < DMLRetryInternalMillisecond D"
  shows "\<exists>g w'. retryCreateLoop D E start retryNum w = Some (g, w') \<and>
                 createPost D E start w g w'"
proof (induction "budget D + start - now w" arbitrary: retryNum w rule: less_induct)
  case less
  let ?i = "DMLRetryInternalMillisecond D * 10 ^ 6"
  obtain g1 w1 where c: "createPipelineExecutor E w = (g1, w1)"
    by (cases "createPipelineExecutor E w") auto
  have w1: "w1 = snd (invoke E w)"
    using createPipelineExecutor_invoke[of E w] c by simp
  have w1c: "calls w1 = Suc (calls w)" and w1n: "now w \<le> now w1"
    using w1 by (simp_all add: invoke_simps)
  show ?case
  proof (cases g1)
    case Panicked
    then have "retryCreateLoop D E start retryNum w = Some (Panicked, w1)"
      using c by (subst retryCreateLoop.simps) simp
    moreover have "createPost D E start w Panicked w1"
      using createPipelineExecutor_Panicked[of E w] c Panicked w1c w1n w1
      by (auto simp: createPost_def no_attempt)
    ultimately show ?thesis by blast
  next
    case (Returned x)
    obtain p err where x: "x = (p, err)" by (cases x) auto
    note cr = createPipelineExecutor_result[of E w p err]
    have ce: "err = createErr (outcome E (calls w))"
      and pl: "p = createPlan (outcome E (calls w))"
      using cr c Returned x by simp_all
    show ?thesis
    proof (cases err)
      case None
      then have "retryCreateLoop D E start retryNum w = Some (Returned (p, None), w1)"
        using c Returned x by (subst retryCreateLoop.simps) simp
      moreover have "createPost D E start w (Returned (p, None)) w1"
        using ce pl None w1c w1n w1 by (simp add: createPost_def no_attempt)
      ultimately show ?thesis by blast
    next
      case (Some e)
      have ce': "createErr (outcome E (calls w)) = Some e" using ce Some by simp
      have pn: "createPlan (outcome E (calls w)) = None"
        using ce' by (cases "outcome E (calls w)") auto
      show ?thesis
      proof (cases "retriableCreate D e")
        case False
        have r: "retryCreateLoop D E start retryNum w =
                 Some (Returned (None, if Contains (msg e) ''declare empty collection''
                                       then None else err), w1)"
          using c Returned x Some False by (subst retryCreateLoop.simps) simp
        have "createPost D E start w
                (Returned (None, if Contains (msg e) ''declare empty collection''
                                       then None else err)) w1"
          using ce' pn Some False w1c w1n w1 by (simp add: createPost_def no_attempt)
        then show ?thesis using r by blast
      next
        case True
        show ?thesis
        proof (cases "now w1 - start < budget D")
          case False
          have r: "retryCreateLoop D E start retryNum w = Some (Returned (None, err), w1)"
            using c Returned x Some True False
            by (subst retryCreateLoop.simps) (simp add: budget_def)
          have "createPost D E start w (Returned (None, err)) w1"
            using ce' pn Some True False w1c w1n w1 by (simp add: createPost_def no_attempt)
          then show ?thesis using r by blast
        next
          case inb: True
          let ?w2 = "Sleep E ?i w1"
          have rec: "retryCreateLoop D E start retryNum w =
                       retryCreateLoop D E start (retryNum + 1) ?w2"
            using c Returned x Some True inb
            by (subst retryCreateLoop.simps) (simp add: budget_def)
          have w2c: "calls ?w2 = Suc (calls w)" using w1c by (simp add: Sleep_simps)
          have w2n: "now w1 < now ?w2" using pos by (simp add: Sleep_simps)
          have dec: "budget D + start - now ?w2 < budget D + start - now w"
            using inb w2n w1n by arith
          from less[OF dec] obtain g w' where
            r: "retryCreateLoop D E start (retryNum + 1) ?w2 = Some (g, w')" and
            p: "createPost D E start ?w2 g w'" by blast
          have r0: "retriedCreateAt D E (calls w)"
            using ce' True by (simp add: retriedCreateAt_def)
          have all: "\<forall>k. calls w \<le> k \<and> Suc k < calls w' \<longrightarrow> retriedCreateAt D E k"
          proof (intro allI impI)
            fix k assume k: "calls w \<le> k \<and> Suc k < calls w'"
            show "retriedCreateAt D E k"
            proof (cases "k = calls w")
              case True then show ?thesis using r0 by simp
            next
              case False
              then have "calls ?w2 \<le> k" using k w2c by simp
              then show ?thesis using p k by (simp add: createPost_def no_attempt)
            qed
          qed
          have cw: "Suc (calls w) < calls w'" "now w \<le> now w'"
            using p w2c w2n w1n by (auto simp: createPost_def no_attempt)
          have wb: "\<exists>wb. now wb - start < budget D \<and> w' = snd (invoke E (Sleep E ?i wb))"
          proof (cases "calls w' = Suc (calls ?w2)")
            case True
            then have "w' = snd (invoke E ?w2)" using p by (simp add: createPost_def no_attempt)
            then show ?thesis using inb by blast
          next
            case False
            then show ?thesis using p by (simp add: createPost_def no_attempt)
          qed
          have "createPost D E start w g w'"
            using p all cw wb by (simp add: createPost_def no_attempt)
          then show ?thesis using rec r by simp
        qed
      qed
    qed
  qed
qed

text \<open>
  Two runs with a budget of one second and an interval of 400 milliseconds: an executor
  that always fails with a retriable error is called four times, and the last error is
  returned once the budget is used up; a plan is obtained at the third call.
\<close>

lemma retryExecuteStatement_budget_example:
  "retryExecuteStatement deps1 envRetry DropDatabaseStatement world0 =
     Some (Returned ([], Some errPtNotFound),
           world0\<lparr>now := 1200000020, calls := 4,
                   sleeps := [400000000, 400000000, 400000000]\<rparr>)"
  by (simp add: retryExecuteStatement_def retryLoop.simps dispatch_def invoke_def Sleep_def
      retriable_def deps1_def envRetry_def world0_def errPtNotFound_def)

lemma retryCreatePipelineExecutor_example:
  "retryCreatePipelineExecutor deps1 envCreate world0 =
     Some (Returned (Some \<lparr>events = [], execErr = None\<rparr>, None),
           world0\<lparr>now := 800000015, calls := 3, sleeps := [400000000, 400000000]\<rparr>)"
  by (simp add: retryCreatePipelineExecutor_def retryCreateLoop.simps
      createPipelineExecutor_def invoke_def Sleep_def retriableCreate_def deps1_def
      envCreate_def world0_def errPtNotFound_def)

text \<open>
  Claim C3. With a positive retry interval, \<^verbatim>\<open>retryExecuteStatement\<close> and
  \<^verbatim>\<open>retryCreatePipelineExecutor\<close> return (the value is never \<open>None\<close>, which stands for a
  loop that runs forever), and they return what the last attempt has returned. Every
  attempt before the last one failed with a retryable error, and the last attempt began
  after a test that saw less than the budget of \<^verbatim>\<open>DMLTimeOutSecond\<close> seconds elapsed.
  \<^verbatim>\<open>retryExecuteStatement\<close> returns the error of the last attempt, which is \<^verbatim>\<open>nil\<close> after a
  success, with the rows of the last attempt; when that error is retryable, the time
  elapsed since the start is at least the budget. It returns \<^verbatim>\<open>nil\<close> without an attempt
  only when the budget is zero or the statement is of a type that the switch does not
  handle. \<^verbatim>\<open>retryCreatePipelineExecutor\<close> makes at least one attempt and returns the plan
  and the error of the last one; an error that is not retryable and contains "declare
  empty collection" is returned as \<^verbatim>\<open>nil\<close>, and a retryable error is returned only when
  the time elapsed is at least the budget. (\<^verbatim>\<open>retryExecuteStatement\<close> can also end in the
  panic of \<^verbatim>\<open>executeExplainStatement\<close>, and \<^verbatim>\<open>retryCreatePipelineExecutor\<close> in the panic
  that \<^verbatim>\<open>createPipelineExecutor\<close> raises again.)
\<close>

theorem retry_loops_terminate:
  assumes "0 < DMLRetryInternalMillisecond D"
  shows "(\<exists>g w'. retryExecuteStatement D E stm w = Some (g, w') \<and>
            (case g of
               Panicked \<Rightarrow> stm = ExplainStatement False
             | Returned (rows', err') \<Rightarrow>
                 (\<forall>k. calls w \<le> k \<and> Suc k < calls w' \<longrightarrow> retriedAt D E k) \<and>
                 (if calls w' = calls w
                  then w' = w \<and> rows' = [] \<and> err' = None \<and>
                       (DMLTimeOutSecond D = 0 \<or> stm = OtherStatement)
                  else err' = snd (outcome E (calls w' - 1)) \<and>
                       rows' = (if assignsRows stm then fst (outcome E (calls w' - 1)) else []) \<and>
                       (retriedAt D E (calls w' - 1) \<longrightarrow>
                          DMLTimeOutSecond D * 10 ^ 9 \<le> now w' - now w) \<and>
                       (\<exists>wb. now wb - now w < DMLTimeOutSecond D * 10 ^ 9 \<and>
                             (w' = snd (invoke E wb) \<or>
                              w' = snd (invoke E
                                     (Sleep E (DMLRetryInternalMillisecond D * 10 ^ 6) wb))))))) \<and>
         (\<exists>g w'. retryCreatePipelineExecutor D E' w = Some (g, w') \<and>
            calls w < calls w' \<and>
            (\<forall>k. calls w \<le> k \<and> Suc k < calls w' \<longrightarrow> retriedCreateAt D E' k) \<and>
            (if calls w' = Suc (calls w) then w' = snd (invoke E' w)
             else (\<exists>wb. now wb - now w < DMLTimeOutSecond D * 10 ^ 9 \<and>
                        w' = snd (invoke E'
                               (Sleep E' (DMLRetryInternalMillisecond D * 10 ^ 6) wb)))) \<and>
            (case g of
               Panicked \<Rightarrow> outcome E' (calls w' - 1) = SelectPanics True
             | Returned (p, err') \<Rightarrow>
                 p = createPlan (outcome E' (calls w' - 1)) \<and>
                 (case createErr (outcome E' (calls w' - 1)) of
                    None \<Rightarrow> err' = None
                  | Some e \<Rightarrow>
                      if retriableCreate D e
                      then err' = Some e \<and> DMLTimeOutSecond D * 10 ^ 9 \<le> now w' - now w
                      else err' = (if Contains (msg e) ''declare empty collection''
                                   then None else Some e))))"
proof
  show "\<exists>g w'. retryExecuteStatement D E stm w = Some (g, w') \<and>
            (case g of
               Panicked \<Rightarrow> stm = ExplainStatement False
             | Returned (rows', err') \<Rightarrow>
                 (\<forall>k. calls w \<le> k \<and> Suc k < calls w' \<longrightarrow> retriedAt D E k) \<and>
                 (if calls w' = calls w
                  then w' = w \<and> rows' = [] \<and> err' = None \<and>
                       (DMLTimeOutSecond D = 0 \<or> stm = OtherStatement)
                  else err' = snd (outcome E (calls w' - 1)) \<and>
                       rows' = (if assignsRows stm then fst (outcome E (calls w' - 1)) else []) \<and>
                       (retriedAt D E (calls w' - 1) \<longrightarrow>
                          DMLTimeOutSecond D * 10 ^ 9 \<le> now w' - now w) \<and>
                       (\<exists>wb. now wb - now w < DMLTimeOutSecond D * 10 ^ 9 \<and>
                             (w' = snd (invoke E wb) \<or>
                              w' = snd (invoke E
                                     (Sleep E (DMLRetryInternalMillisecond D * 10 ^ 6) wb))))))"
  proof (cases "stm = OtherStatement")
    case True
    then show ?thesis by (auto simp: retryExecuteStatement_OtherStatement)
  next
    case False
    obtain g w' where r: "retryLoop D E stm (now w) 0 [] None w = Some (g, w')"
      and p: "loopPost D E stm (now w) [] None w g w'"
      using retryLoop_post[OF assms False] by blast
    show ?thesis
    proof (cases g)
      case Panicked
      then show ?thesis using r p by (simp add: retryExecuteStatement_def loopPost_def)
    next
      case (Returned x)
      obtain rs er where x: "x = (rs, er)" by (cases x) auto
      show ?thesis
        using r p Returned x unfolding retryExecuteStatement_def loopPost_def budget_def
        by (cases "calls w' = calls w") auto
    qed
  qed
next
  obtain g w' where r: "retryCreateLoop D E' (now w) 0 w = Some (g, w')"
    and p: "createPost D E' (now w) w g w'"
    using retryCreateLoop_post[OF assms] by blast
  show "\<exists>g w'. retryCreatePipelineExecutor D E' w = Some (g, w') \<and>
            calls w < calls w' \<and>
            (\<forall>k. calls w \<le> k \<and> Suc k < calls w' \<longrightarrow> retriedCreateAt D E' k) \<and>
            (if calls w' = Suc (calls w) then w' = snd (invoke E' w)
             else (\<exists>wb. now wb - now w < DMLTimeOutSecond D * 10 ^ 9 \<and>
                        w' = snd (invoke E'
                               (Sleep E' (DMLRetryInternalMillisecond D * 10 ^ 6) wb)))) \<and>
            (case g of
               Panicked \<Rightarrow> outcome E' (calls w' - 1) = SelectPanics True
             | Returned (p, err') \<Rightarrow>
                 p = createPlan (outcome E' (calls w' - 1)) \<and>
                 (case createErr (outcome E' (calls w' - 1)) of
                    None \<Rightarrow> err' = None
                  | Some e \<Rightarrow>
                      if retriableCreate D e
                      then err' = Some e \<and> DMLTimeOutSecond D * 10 ^ 9 \<le> now w' - now w
                      else err' = (if Contains (msg e) ''declare empty collection''
                                   then None else Some e)))"
    using r p unfolding retryCreatePipelineExecutor_def createPost_def budget_def by blast
qed

theorem retry_loops_terminate_witness:
  "0 < DMLRetryInternalMillisecond deps1 \<and>
   retryExecuteStatement deps1 envRetry DropDatabaseStatement world0 \<noteq> None \<and>
   retryExecuteStatement deps1 envRetry DropDatabaseStatement world0 =
     Some (Returned ([], Some errPtNotFound),
           world0\<lparr>now := 1200000020, calls := 4,
                   sleeps := [400000000, 400000000, 400000000]\<rparr>) \<and>
   snd (outcome envRetry 3) = Some errPtNotFound \<and>
   retryCreatePipelineExecutor deps1 envCreate world0 \<noteq> None \<and>
   retryCreatePipelineExecutor deps1 envCreate world0 =
     Some (Returned (Some \<lparr>events = [], execErr = None\<rparr>, None),
           world0\<lparr>now := 800000015, calls := 3, sleeps := [400000000, 400000000]\<rparr>) \<and>
   createPlan (outcome envCreate 2) = Some \<lparr>events = [], execErr = None\<rparr>"
proof -
  have pos: "0 < DMLRetryInternalMillisecond deps1" by (simp add: deps1_def)
  have t: "retryExecuteStatement deps1 envRetry DropDatabaseStatement world0 \<noteq> None \<and>
           retryCreatePipelineExecutor deps1 envCreate world0 \<noteq> None"
    using retry_loops_terminate[OF pos, of envRetry DropDatabaseStatement world0 envCreate]
    by auto
  have o: "snd (outcome envRetry 3) = Some errPtNotFound" by (simp add: envRetry_def)
  have c: "createPlan (outcome envCreate 2) = Some \<lparr>events = [], execErr = None\<rparr>"
    by (simp add: envCreate_def)
  show ?thesis
    using pos t o c retryExecuteStatement_budget_example retryCreatePipelineExecutor_example
    by blast
qed

section \<open>executeSelectStatement: a SELECT that ends without error has sent a result\<close>

lemma Send_None:
  "Send E r seq w = (None, w') \<Longrightarrow>
     sent w' = sent w @ [r\<lparr>StatementID := seq\<rparr>] \<and> sendCalls w' = Suc (sendCalls w)"
  by (auto simp: Send_def split: option.splits)

lemma receive_Inr:
  "receive E seq evs emitted w = (Inr em, w') \<Longrightarrow>
     list_all isBatch evs \<and> em = (emitted \<or> evs \<noteq> []) \<and>
     (\<exists>rs. sent w' = sent w @ rs \<and> length rs = length evs) \<and>
     sendCalls w' = sendCalls w + length evs"
proof (induction E seq evs emitted w rule: receive.induct)
  case (1 E seq emitted w)
  then show ?case by simp
next
  case (2 E seq rs partial evs emitted w)
  let ?r = "\<lparr>Series = rs, Partial = partial, StatementID = 0\<rparr>"
  obtain e1 w1 where s: "Send E ?r seq w = (e1, w1)" by (cases "Send E ?r seq w") auto
  show ?case
  proof (cases e1)
    case None
    note sn = Send_None[OF s[unfolded None]]
    have "receive E seq evs True w1 = (Inr em, w')" using "2.prems" s None by simp
    from "2.IH"[OF s[unfolded None, symmetric] refl this] sn
    show ?thesis by auto
  next
    case (Some e)
    then show ?thesis using "2.prems" s by simp
  qed
next
  case (3 E seq e evs emitted w)
  then show ?case by simp
qed

lemma retryCreateLoop_frame:
  assumes "retryCreateLoop D E start n w = Some y"
  shows "sent (snd y) = sent w \<and> sendCalls (snd y) = sendCalls w"
proof (rule retryCreateLoop.raw_induct
         [where P = "\<lambda>D E start n w y. sent (snd y) = sent w \<and> sendCalls (snd y) = sendCalls w",
          OF _ assms], goal_cases)
  case (1 loop D E start n w y)
  obtain g1 w1 where c: "createPipelineExecutor E w = (g1, w1)"
    by (cases "createPipelineExecutor E w") auto
  have w1: "sent w1 = sent w" "sendCalls w1 = sendCalls w"
    using createPipelineExecutor_world[of E w] c by simp_all
  let ?w2 = "Sleep E (DMLRetryInternalMillisecond D * 10 ^ 6) w1"
  have ih: "loop D E start (n + 1) ?w2 = Some y \<Longrightarrow>
              sent (snd y) = sent w \<and> sendCalls (snd y) = sendCalls w"
    using 1(1)[of D E start "n + 1" ?w2 y] w1 by (simp add: Sleep_simps)
  show ?case
  proof (cases g1)
    case Panicked
    then have "y = (Panicked, w1)" using 1(2) c by simp
    then show ?thesis using w1 by simp
  next
    case (Returned x)
    obtain p err where x: "x = (p, err)" by (cases x) auto
    show ?thesis
    proof (cases err)
      case None
      then have "y = (Returned (p, None), w1)" using 1(2) c Returned x by simp
      then show ?thesis using w1 by simp
    next
      case (Some e)
      consider (again) "loop D E start (n + 1) ?w2 = Some y" | (stop) "snd y = w1"
        using 1(2) c Returned x Some by (auto split: if_splits)
      then show ?thesis
      proof cases
        case again then show ?thesis by (rule ih)
      next
        case stop then show ?thesis using w1 by simp
      qed
    qed
  qed
qed

text \<open>
  Claim C1. When \<^verbatim>\<open>executeSelectStatement\<close> returns \<^verbatim>\<open>nil\<close>, it has delivered at
  least one result to the sink. If the construction of the pipeline yields no plan (a
  \<^verbatim>\<open>nil\<close> executor, or the empty-collection error), exactly one result is delivered in
  one send, and it is the empty result with the statement's sequence number. If a plan
  runs and no event of its execution is a row batch, the same holds.
\<close>

theorem executeSelectStatement_sends_result:
  assumes "executeSelectStatement D E seq w = Some (Returned None, w')"
  shows "(\<exists>rs. rs \<noteq> [] \<and> sent w' = sent w @ rs) \<and>
         (\<forall>p err w1.
            retryCreatePipelineExecutor D E w = Some (Returned (p, err), w1) \<and>
            (p = None \<or> err = Some (ErrDeclareEmptyCollection D)) \<longrightarrow>
              sent w' = sent w @ [emptyResult\<lparr>StatementID := seq\<rparr>] \<and>
              sendCalls w' = Suc (sendCalls w)) \<and>
         (\<forall>p w1.
            retryCreatePipelineExecutor D E w = Some (Returned (Some p, None), w1) \<and>
            \<not> list_ex isBatch (events p) \<longrightarrow>
              sent w' = sent w @ [emptyResult\<lparr>StatementID := seq\<rparr>] \<and>
              sendCalls w' = Suc (sendCalls w))"
proof -
  obtain g w1 where c: "retryCreatePipelineExecutor D E w = Some (g, w1)"
    using assms by (cases "retryCreatePipelineExecutor D E w")
      (auto simp: executeSelectStatement_def)
  have fr: "sent w1 = sent w" "sendCalls w1 = sendCalls w"
    using retryCreateLoop_frame[of D E "now w" 0 w "(g, w1)"] c
    by (simp_all add: retryCreatePipelineExecutor_def)
  obtain p0 err0 where g: "g = Returned (p0, err0)"
    using assms c by (cases g) (auto simp: executeSelectStatement_def)
  define noPlan where "noPlan = (p0 = None \<or> err0 = Some (ErrDeclareEmptyCollection D))"
  have one: "sent w' = sent w @ [emptyResult\<lparr>StatementID := seq\<rparr>] \<and>
             sendCalls w' = Suc (sendCalls w)"
    if h: "noPlan \<or> (\<exists>p. p0 = Some p \<and> err0 = None \<and> \<not> list_ex isBatch (events p))"
  proof (cases noPlan)
    case True
    then have "Send E emptyResult seq w1 = (None, w')"
      using assms c g
      by (auto simp: executeSelectStatement_def noPlan_def split: if_splits option.splits prod.splits)
    from Send_None[OF this] show ?thesis using fr by simp
  next
    case False
    then obtain p where p: "p0 = Some p" "err0 = None" "\<not> list_ex isBatch (events p)"
      using h by blast
    have ne: "err0 \<noteq> Some (ErrDeclareEmptyCollection D)" using p by simp
    obtain x w2 where r: "receive E seq (events p) False w1 = (x, w2)"
      by (cases "receive E seq (events p) False w1") auto
    obtain em where x: "x = Inr em"
      using assms c g p r
      by (cases x) (auto simp: executeSelectStatement_def split: option.splits)
    note ri = receive_Inr[OF r[unfolded x]]
    have ev: "events p = []"
    proof (cases "events p")
      case Nil then show ?thesis .
    next
      case (Cons a as)
      then have "isBatch a" using ri by simp
      then show ?thesis using p(3) Cons by simp
    qed
    then have em: "\<not> em" and w2: "sent w2 = sent w1" "sendCalls w2 = sendCalls w1"
      using ri by auto
    have "Send E emptyResult seq w2 = (None, w')"
      using assms c g p r x em
      by (auto simp: executeSelectStatement_def split: option.splits prod.splits)
    from Send_None[OF this] show ?thesis using fr w2 by simp
  qed
  have some: "\<exists>rs. rs \<noteq> [] \<and> sent w' = sent w @ rs"
  proof (cases "noPlan \<or> (\<exists>p. p0 = Some p \<and> err0 = None \<and> \<not> list_ex isBatch (events p))")
    case True
    from one[OF True] show ?thesis by blast
  next
    case False
    then have np: "\<not> noPlan" by simp
    then obtain p where p0: "p0 = Some p" by (auto simp: noPlan_def)
    have e0: "err0 = None"
      using assms c g np p0
      by (auto simp: executeSelectStatement_def noPlan_def split: option.splits if_splits)
    have lb: "list_ex isBatch (events p)" using False p0 e0 by simp
    have ne: "err0 \<noteq> Some (ErrDeclareEmptyCollection D)" using e0 by simp
    obtain x w2 where r: "receive E seq (events p) False w1 = (x, w2)"
      by (cases "receive E seq (events p) False w1") auto
    obtain em where x: "x = Inr em"
      using assms c g p0 e0 r
      by (cases x) (auto simp: executeSelectStatement_def split: option.splits)
    note ri = receive_Inr[OF r[unfolded x]]
    have nonempty: "events p \<noteq> []" using lb by auto
    then have em: "em" using ri by simp
    have "w' = w2"
      using assms c g p0 e0 r x em
      by (auto simp: executeSelectStatement_def split: option.splits prod.splits)
    moreover obtain rs where "sent w2 = sent w1 @ rs" "length rs = length (events p)"
      using ri by blast
    ultimately show ?thesis using nonempty fr by auto
  qed
  have noplan: "\<forall>p err w1.
            retryCreatePipelineExecutor D E w = Some (Returned (p, err), w1) \<and>
            (p = None \<or> err = Some (ErrDeclareEmptyCollection D)) \<longrightarrow>
              sent w' = sent w @ [emptyResult\<lparr>StatementID := seq\<rparr>] \<and>
              sendCalls w' = Suc (sendCalls w)"
  proof (intro allI impI)
    fix p err w1'
    assume "retryCreatePipelineExecutor D E w = Some (Returned (p, err), w1') \<and>
            (p = None \<or> err = Some (ErrDeclareEmptyCollection D))"
    then have noPlan using c g by (simp add: noPlan_def)
    then show "sent w' = sent w @ [emptyResult\<lparr>StatementID := seq\<rparr>] \<and>
               sendCalls w' = Suc (sendCalls w)" using one by blast
  qed
  have nobatch: "\<forall>p w1.
            retryCreatePipelineExecutor D E w = Some (Returned (Some p, None), w1) \<and>
            \<not> list_ex isBatch (events p) \<longrightarrow>
              sent w' = sent w @ [emptyResult\<lparr>StatementID := seq\<rparr>] \<and>
              sendCalls w' = Suc (sendCalls w)"
  proof (intro allI impI)
    fix p w1'
    assume "retryCreatePipelineExecutor D E w = Some (Returned (Some p, None), w1') \<and>
            \<not> list_ex isBatch (events p)"
    then have "\<exists>p. p0 = Some p \<and> err0 = None \<and> \<not> list_ex isBatch (events p)"
      using c g by simp
    then show "sent w' = sent w @ [emptyResult\<lparr>StatementID := seq\<rparr>] \<and>
               sendCalls w' = Suc (sendCalls w)" using one by blast
  qed
  show ?thesis using some noplan nobatch by blast
qed

theorem executeSelectStatement_sends_result_witness:
  "executeSelectStatement deps1 envCreate 3 world0 =
     Some (Returned None,
           world0\<lparr>now := 800000015, calls := 3, sleeps := [400000000, 400000000],
                   sent := [\<lparr>Series = [], Partial = False, StatementID = 3\<rparr>],
                   sendCalls := 1\<rparr>) \<and>
   (\<exists>rs. rs \<noteq> [] \<and>
      sent (world0\<lparr>now := 800000015, calls := 3, sleeps := [400000000, 400000000],
                   sent := [\<lparr>Series = [], Partial = False, StatementID = 3\<rparr>],
                   sendCalls := 1\<rparr>) = sent world0 @ rs)"
proof -
  have r: "executeSelectStatement deps1 envCreate 3 world0 =
     Some (Returned None,
           world0\<lparr>now := 800000015, calls := 3, sleeps := [400000000, 400000000],
                   sent := [\<lparr>Series = [], Partial = False, StatementID = 3\<rparr>],
                   sendCalls := 1\<rparr>)"
    unfolding executeSelectStatement_def retryCreatePipelineExecutor_example
    by (simp add: Send_def emptyResult_def envCreate_def world0_def deps1_def)
  from executeSelectStatement_sends_result[OF r] r show ?thesis by blast
qed

section \<open>Dropping what does not exist is not an error\<close>

text \<open>
  Claim C9. \<^verbatim>\<open>executeDropDatabaseStatement\<close> returns \<^verbatim>\<open>nil\<close> when
  \<^verbatim>\<open>MarkDatabaseDelete\<close> fails with an error whose text starts with "database not
  found". \<^verbatim>\<open>executeDropRetentionPolicyStatement\<close> returns \<^verbatim>\<open>nil\<close>, and asks for no
  deletion, when the metadata client has no such database, or the database has no such
  retention policy.
\<close>

theorem drop_nonexistent_is_success:
  "(\<forall>err. MarkDatabaseDelete M name = Some err \<and> HasPrefix (msg err) ''database not found''
           \<longrightarrow> fst (executeDropDatabaseStatement M name) = None) \<and>
   (fst (Database M db) = None
      \<longrightarrow> executeDropRetentionPolicyStatement M db rp = (None, [])) \<and>
   (\<forall>dbi. fst (Database M db) = Some dbi \<and> RetentionPolicy dbi rp = None
      \<longrightarrow> executeDropRetentionPolicyStatement M db rp = (None, []))"
  by (auto simp: executeDropDatabaseStatement_def executeDropRetentionPolicyStatement_def)

theorem drop_nonexistent_is_success_witness:
  "MarkDatabaseDelete meta0 ''db0'' = Some errDbNotFound \<and>
   HasPrefix (msg errDbNotFound) ''database not found'' \<and>
   fst (executeDropDatabaseStatement meta0 ''db0'') = None \<and>
   fst (Database meta0 ''db0'') = None \<and>
   executeDropRetentionPolicyStatement meta0 ''db0'' ''autogen'' = (None, []) \<and>
   RetentionPolicy (the (fst (Database meta0 ''db1''))) ''rp9'' = None \<and>
   executeDropRetentionPolicyStatement meta0 ''db1'' ''rp9'' = (None, [])"
proof -
  have a: "MarkDatabaseDelete meta0 ''db0'' = Some errDbNotFound"
    and b: "HasPrefix (msg errDbNotFound) ''database not found''"
    and c: "fst (Database meta0 ''db0'') = None"
    and d: "fst (Database meta0 ''db1'') =
              Some \<lparr>dbName = ''db1'',
                    RetentionPolicy = (\<lambda>r. if r = ''autogen'' then Some \<lparr>rpName = ''autogen''\<rparr>
                                            else None)\<rparr>"
    by (simp_all add: meta0_def errDbNotFound_def)
  note t0 = drop_nonexistent_is_success[of meta0 "''db0''" "''db0''" "''autogen''"]
  note t1 = drop_nonexistent_is_success[of meta0 "''db1''" "''db1''" "''rp9''"]
  have "fst (executeDropDatabaseStatement meta0 ''db0'') = None" using t0 a b by blast
  moreover have "executeDropRetentionPolicyStatement meta0 ''db0'' ''autogen'' = (None, [])"
    using t0 c by blast
  moreover have "executeDropRetentionPolicyStatement meta0 ''db1'' ''rp9'' = (None, [])"
    using t1 d by simp
  ultimately show ?thesis using a b c d by simp
qed

section \<open>SHOW SERIES with no series sends nothing\<close>

lemma EachDBNodes_all_empty:
  assumes "\<forall>(nodeID, pts) \<in> set ns. ShowSeries S nodeID pts names = ([], None)"
  shows "EachDBNodes ns (showSeriesOnNode S names) (False, []) = (None, (False, []))"
  using assms by (induction ns) (auto simp: showSeriesOnNode_def)

text \<open>
  Claim C10. When the fan-out of \<^verbatim>\<open>executeShowSeries\<close> ends without error and the
  sorted series list, trimmed by \<^verbatim>\<open>limitStringSlice\<close>, is empty, the function returns
  \<^verbatim>\<open>nil\<close> and leaves the sink as it was: no \<^verbatim>\<open>ctx.Send\<close> is made. This is so in
  particular when every node answers with no series and the offset is not negative.
\<close>

theorem executeShowSeries_empty_sends_nothing:
  "(MatchMeasurements S = (names, None) \<and>
    EachDBNodes (DBNodes S) (showSeriesOnNode S names) (False, []) = (None, (hasErr, series)) \<and>
    limitStringSlice (sort series) (Offset q) (Limit q) = Some []
      \<longrightarrow> executeShowSeries E S q seq w = (Returned None, w)) \<and>
   (MatchMeasurements S = (names, None) \<and>
    (\<forall>(nodeID, pts) \<in> set (DBNodes S). ShowSeries S nodeID pts names = ([], None)) \<and>
    0 \<le> sint (Offset q)
      \<longrightarrow> executeShowSeries E S q seq w = (Returned None, w))"
proof (intro conjI impI)
  assume "MatchMeasurements S = (names, None) \<and>
    EachDBNodes (DBNodes S) (showSeriesOnNode S names) (False, []) = (None, (hasErr, series)) \<and>
    limitStringSlice (sort series) (Offset q) (Limit q) = Some []"
  then show "executeShowSeries E S q seq w = (Returned None, w)"
    by (simp add: executeShowSeries_def)
next
  assume a: "MatchMeasurements S = (names, None) \<and>
    (\<forall>(nodeID, pts) \<in> set (DBNodes S). ShowSeries S nodeID pts names = ([], None)) \<and>
    0 \<le> sint (Offset q)"
  then have "EachDBNodes (DBNodes S) (showSeriesOnNode S names) (False, []) = (None, (False, []))"
    by (simp add: EachDBNodes_all_empty)
  moreover have "limitStringSlice (sort []) (Offset q) (Limit q) = Some []"
    using a by (simp add: limitStringSlice_def)
  ultimately show "executeShowSeries E S q seq w = (Returned None, w)"
    using a by (simp add: executeShowSeries_def)
qed

text \<open>
  On the example store the three series are sent sorted; with an offset of 3 the trimmed
  list is empty and nothing is sent.
\<close>

lemma executeShowSeries_example:
  "executeShowSeries envFail store0 \<lparr>Offset = 0, Limit = 0\<rparr> 1 world0 =
     (Returned None,
      world0\<lparr>sent := [\<lparr>Series = [\<lparr>Name = [], Columns = [''key''],
                                  Values = [[CString ''cpu,host=a''], [CString ''cpu,host=b''],
                                            [CString ''cpu,host=c'']]\<rparr>],
                        Partial = False, StatementID = 1\<rparr>],
              sendCalls := 1\<rparr>)"
  by (simp add: executeShowSeries_def store0_def showSeriesOnNode_def limitStringSlice_def
      Send_def envFail_def world0_def)

theorem executeShowSeries_empty_sends_nothing_witness:
  "MatchMeasurements store0 = ([''cpu''], None) \<and>
   EachDBNodes (DBNodes store0) (showSeriesOnNode store0 [''cpu'']) (False, []) =
     (None, (False, [''cpu,host=b'', ''cpu,host=a'', ''cpu,host=c''])) \<and>
   limitStringSlice (sort [''cpu,host=b'', ''cpu,host=a'', ''cpu,host=c'']) 3 0 = Some [] \<and>
   executeShowSeries envFail store0 \<lparr>Offset = 3, Limit = 0\<rparr> 1 world0 = (Returned None, world0)"
proof -
  have a: "MatchMeasurements store0 = ([''cpu''], None)" by (simp add: store0_def)
  have b: "EachDBNodes (DBNodes store0) (showSeriesOnNode store0 [''cpu'']) (False, []) =
     (None, (False, [''cpu,host=b'', ''cpu,host=a'', ''cpu,host=c'']))"
    by (simp add: store0_def showSeriesOnNode_def)
  have c: "limitStringSlice (sort [''cpu,host=b'', ''cpu,host=a'', ''cpu,host=c''])
             (Offset \<lparr>Offset = 3, Limit = 0\<rparr>) (Limit \<lparr>Offset = 3, Limit = 0\<rparr>) = Some []"
    by (simp add: limitStringSlice_def)
  from executeShowSeries_empty_sends_nothing
         [of store0 "[''cpu'']" False "[''cpu,host=b'', ''cpu,host=a'', ''cpu,host=c'']"
             "\<lparr>Offset = 3, Limit = 0\<rparr>" envFail 1 world0] a b c
  have "executeShowSeries envFail store0 \<lparr>Offset = 3, Limit = 0\<rparr> 1 world0 =
          (Returned None, world0)" by blast
  then show ?thesis using a b c by simp
qed

section \<open>The combined begin time is the earliest one\<close>

lemma foldedRun_append: "foldedRun st (xs @ ys) = foldedRun (foldedRun st xs) ys"
proof (induction xs arbitrary: st)
  case Nil
  then show ?case by simp
next
  case (Cons x xs)
  obtain d f where st: "st = (d, f)" by (cases st) auto
  obtain h i where x: "x = (h, i)" by (cases x) auto
  show ?case using Cons.IH by (simp add: st x)
qed

lemma foldedRun_combineQueryExeInfos:
  "fst (foldedRun (d, f) (map (Pair host) infos)) = combineQueryExeInfos d infos host"
  by (induction infos arbitrary: d f) simp_all

lemma foldedRun_combineAll:
  "fst (foldedRun (d, f) (reportsInOrder perNode)) = combineAll d perNode"
proof (induction perNode arbitrary: d f)
  case Nil
  then show ?case by (simp add: reportsInOrder_def)
next
  case (Cons a perNode)
  obtain host infos where a: "a = (host, infos)" by (cases a) auto
  obtain d1 f1 where r: "foldedRun (d, f) (map (Pair host) infos) = (d1, f1)"
    by (cases "foldedRun (d, f) (map (Pair host) infos)") auto
  have d1: "d1 = combineQueryExeInfos d infos host"
    using foldedRun_combineQueryExeInfos[of d f host infos] r by simp
  have "reportsInOrder (a # perNode) = map (Pair host) infos @ reportsInOrder perNode"
    by (simp add: reportsInOrder_def a)
  then show ?case using Cons.IH[of d1 f1] r d1 by (simp add: foldedRun_append a)
qed

lemma beginTime_updateHosts [simp]: "beginTime (updateHosts c h s) = beginTime c"
  by (cases s) (simp_all add: updateHosts_def)

lemma stmt_updateHosts [simp]: "stmt (updateHosts c h s) = stmt c"
  by (cases s) (simp_all add: updateHosts_def)

lemma beginTime_updateBeginTime: "beginTime (updateBeginTime c b) = min (beginTime c) b"
  by (simp add: updateBeginTime_def min_def)

lemma stmt_updateBeginTime [simp]: "stmt (updateBeginTime c b) = stmt c"
  by (simp add: updateBeginTime_def)

lemma Min_snoc:
  assumes "xs \<noteq> []"
  shows "Min (BeginTime ` set (xs @ [i])) = min (Min (BeginTime ` set xs)) (BeginTime i)"
proof -
  have "BeginTime ` set (xs @ [i]) = insert (BeginTime i) (BeginTime ` set xs)" by auto
  moreover have "finite (BeginTime ` set xs)" "BeginTime ` set xs \<noteq> {}" using assms by auto
  ultimately show ?thesis by (simp add: min.commute)
qed

lemma entryInv_step:
  assumes "entryInv (d, f)"
  shows "entryInv (combineOne d h i, foldOne d f i)"
proof (cases "map_of d (QueryID i)")
  case None
  have c: "combineOne d h i = AList.update (QueryID i) (newCmbInfo i h) d"
    and g: "foldOne d f i = f(QueryID i := [i])"
    using None by (simp_all add: combineOne_def foldOne_def)
  show ?thesis
    using assms unfolding entryInv_def c g
    by (auto simp: update_conv' newCmbInfo_def)
next
  case (Some c0)
  have old: "f (QueryID i) \<noteq> []" "beginTime c0 = Min (BeginTime ` set (f (QueryID i)))"
    "\<forall>j \<in> set (f (QueryID i)). QueryID j = QueryID i \<and> Stmt j = stmt c0"
    using assms Some by (auto simp: entryInv_def)
  show ?thesis
  proof (cases "stmt c0 = Stmt i")
    case True
    have c: "combineOne d h i =
               AList.update (QueryID i)
                 (updateHosts (updateBeginTime c0 (BeginTime i)) h (RunState i)) d"
      and g: "foldOne d f i = f(QueryID i := f (QueryID i) @ [i])"
      using Some True by (simp_all add: combineOne_def foldOne_def)
    have m: "Min (BeginTime ` set (f (QueryID i) @ [i])) = min (beginTime c0) (BeginTime i)"
      using Min_snoc[OF old(1)] old(2) by simp
    show ?thesis
      using assms old(1,3) True m unfolding entryInv_def c g
      by (auto simp: update_conv' beginTime_updateBeginTime)
  next
    case False
    show ?thesis
    proof (cases "BeginTime i \<le> beginTime c0")
      case True
      have "combineOne d h i = d" "foldOne d f i = f"
        using Some False True by (simp_all add: combineOne_def foldOne_def)
      then show ?thesis using assms by simp
    next
      case le: False
      have c: "combineOne d h i = AList.update (QueryID i) (newCmbInfo i h) d"
        and g: "foldOne d f i = f(QueryID i := [i])"
        using Some False le by (simp_all add: combineOne_def foldOne_def)
      show ?thesis
        using assms unfolding entryInv_def c g
        by (auto simp: update_conv' newCmbInfo_def)
    qed
  qed
qed

lemma entryInv_foldedRun: "entryInv st \<Longrightarrow> entryInv (foldedRun st xs)"
proof (induction xs arbitrary: st)
  case Nil
  then show ?case by simp
next
  case (Cons x xs)
  obtain d f where st: "st = (d, f)" by (cases st) auto
  obtain h i where x: "x = (h, i)" by (cases x) auto
  show ?case using Cons entryInv_step[of d f h i] by (simp add: st x)
qed

lemma foldedRun_subset:
  "set (snd (foldedRun (d, f) xs) q) \<subseteq> set (f q) \<union> snd ` set xs"
proof (induction xs arbitrary: d f)
  case Nil
  then show ?case by simp
next
  case (Cons x xs)
  obtain h i where x: "x = (h, i)" by (cases x) auto
  have "set (foldOne d f i q) \<subseteq> set (f q) \<union> {i}"
    by (auto simp: foldOne_def split: option.splits if_splits)
  then show ?case using Cons.IH[of "combineOne d h i" "foldOne d f i"] by (auto simp: x)
qed

text \<open>
  Claim C6. For every entry that \<^verbatim>\<open>combineQueryExeInfos\<close> has produced from the reports
  of the nodes, starting from the empty map: some reports have been folded into the
  entry; they are reports of the nodes, with the entry's query id and statement text;
  and the entry's \<^verbatim>\<open>beginTime\<close> is the least of their begin times. \<^verbatim>\<open>updateBeginTime\<close>
  yields the smaller of the two times, so it never increases \<^verbatim>\<open>beginTime\<close>.
\<close>

theorem combined_beginTime_is_earliest:
  assumes "map_of (combineAll [] perNode) q = Some e"
  shows "foldedInto perNode q \<noteq> [] \<and>
         beginTime e = Min (BeginTime ` set (foldedInto perNode q)) \<and>
         (\<forall>i \<in> set (foldedInto perNode q).
            QueryID i = q \<and> Stmt i = stmt e \<and> i \<in> snd ` set (reportsInOrder perNode)) \<and>
         beginTime (updateBeginTime c b) = min (beginTime c) b \<and>
         beginTime (updateBeginTime c b) \<le> beginTime c"
proof -
  let ?st = "foldedRun ([], \<lambda>q. []) (reportsInOrder perNode)"
  have "entryInv ([], \<lambda>q. [])" by (simp add: entryInv_def)
  then have inv: "entryInv ?st" by (rule entryInv_foldedRun)
  have "fst ?st = combineAll [] perNode" by (rule foldedRun_combineAll)
  then have "map_of (fst ?st) q = Some e" using assms by simp
  then have a: "snd ?st q \<noteq> []" "beginTime e = Min (BeginTime ` set (snd ?st q))"
    "\<forall>i \<in> set (snd ?st q). QueryID i = q \<and> Stmt i = stmt e"
    using inv unfolding entryInv_def by blast+
  have s: "set (snd ?st q) \<subseteq> snd ` set (reportsInOrder perNode)"
    using foldedRun_subset[of "[]" "\<lambda>q. []" "reportsInOrder perNode" q] by simp
  show ?thesis
    using a s by (auto simp: foldedInto_def beginTime_updateBeginTime)
qed

theorem combined_beginTime_is_earliest_witness:
  "map_of (combineAll [] [(''A'', fst (GetQueriesOnNode storeQ 1)),
                          (''B'', fst (GetQueriesOnNode storeQ 2))]) 7 =
     Some \<lparr>qid = 7, stmt = ''select 1'', database = ''db'', beginTime = 90,
           runningHosts = [''A''], killedHosts = [''B'']\<rparr> \<and>
   (90::int) = Min (BeginTime ` set (foldedInto [(''A'', fst (GetQueriesOnNode storeQ 1)),
                               (''B'', fst (GetQueriesOnNode storeQ 2))] 7))"
proof -
  have a: "map_of (combineAll [] [(''A'', fst (GetQueriesOnNode storeQ 1)),
                          (''B'', fst (GetQueriesOnNode storeQ 2))]) 7 =
     Some \<lparr>qid = 7, stmt = ''select 1'', database = ''db'', beginTime = 90,
           runningHosts = [''A''], killedHosts = [''B'']\<rparr>"
    by (simp add: storeQ_def combineOne_def newCmbInfo_def updateHosts_def updateBeginTime_def
        insertKey_def)
  from combined_beginTime_is_earliest[OF a] a show ?thesis by simp
qed

section \<open>The rows of SHOW QUERIES\<close>





















section \<open>The name-list merge is a sorted union\<close>

lemma set_markNames: "set (markNames r xs) = set r \<union> set xs"
  by (induction xs arbitrary: r) (auto simp: insertKey_def)

lemma distinct_markNames: "distinct r \<Longrightarrow> distinct (markNames r xs)"
  by (induction xs arbitrary: r) (auto simp: insertKey_def)

lemma gatherNames_decodes:
  assumes "\<forall>(n, m) \<in> set ms. decodes U m"
  shows "\<exists>ns. gatherNames U ms acc = Inr ns \<and> set ns = set acc \<union> allNames U ms"
  using assms
proof (induction ms arbitrary: acc)
  case Nil
  then show ?case by (simp add: allNames_def)
next
  case (Cons a ms)
  obtain n m where a: "a = (n, m)" by (cases a) auto
  have dm: "decodes U m" and rest: "\<forall>(n, m) \<in> set ms. decodes U m"
    using Cons.prems by (auto simp: a)
  have u: "allNames U (a # ms) = set (nodeNames U m) \<union> allNames U ms"
    by (simp add: allNames_def a)
  show ?case
  proof (cases "MsgResult m = []")
    case True
    then show ?thesis using Cons.IH[OF rest, of acc] u by (simp add: a nodeNames_def)
  next
    case False
    obtain names where un: "U (MsgResult m) = (names, None)"
      using dm False by (cases "U (MsgResult m)") (auto simp: decodes_def)
    have nn: "nodeNames U m = names" using False un by (simp add: nodeNames_def)
    obtain ns where "gatherNames U ms (if length names > 0 then acc @ names else acc) = Inr ns"
      and "set ns = set (if length names > 0 then acc @ names else acc) \<union> allNames U ms"
      using Cons.IH[OF rest] by blast
    then show ?thesis using False un u nn by (auto simp: a split: if_splits)
  qed
qed

lemma MergeMeasurementsNames_sorted_union:
  assumes "\<forall>(n, m) \<in> set ms. decodes U m"
  shows "MergeMeasurementsNames U seed ms = (None, sorted_list_of_set (allNames U ms))"
proof -
  obtain ns where g: "gatherNames U ms [] = Inr ns" and s: "set ns = allNames U ms"
    using gatherNames_decodes[OF assms, of "[]"] by auto
  let ?u = "shuffle seed (markNames [] ns)"
  have m: "mset ?u = mset (markNames [] ns)" by (rule mset_shuffle)
  have "set ?u = set (markNames [] ns)" using m by (rule mset_eq_setD)
  then have su: "set ?u = allNames U ms" using s by (simp add: set_markNames)
  have "distinct (markNames [] ns)" by (rule distinct_markNames) simp
  then have du: "distinct ?u" using m by (metis mset_eq_imp_distinct_iff)
  have "sort ?u = sorted_list_of_set (set ?u)"
    by (rule sorted_distinct_set_unique) (simp_all add: du)
  then show ?thesis using g su by (simp add: MergeMeasurementsNames_def)
qed

lemma allNames_mset: "mset ms' = mset ms \<Longrightarrow> allNames U ms' = allNames U ms"
  using mset_eq_setD[of ms' ms] by (simp add: allNames_def)

lemma gatherNames_undecodable:
  assumes "\<exists>(n, m) \<in> set ms. \<not> decodes U m"
  shows "\<exists>e. gatherNames U ms acc = Inl e"
  using assms
proof (induction ms arbitrary: acc)
  case Nil
  then show ?case by simp
next
  case (Cons a ms)
  obtain n m where a: "a = (n, m)" by (cases a) auto
  show ?case
  proof (cases "decodes U m")
    case False
    then obtain names err where "MsgResult m \<noteq> []" "U (MsgResult m) = (names, Some err)"
      by (cases "U (MsgResult m)") (auto simp: decodes_def)
    then show ?thesis by (simp add: a)
  next
    case True
    then have rest: "\<exists>(n, m) \<in> set ms. \<not> decodes U m" using Cons.prems by (auto simp: a)
    show ?thesis
    proof (cases "MsgResult m = []")
      case True
      then show ?thesis using Cons.IH[OF rest] by (simp add: a)
    next
      case False
      then obtain names where "U (MsgResult m) = (names, None)"
        using \<open>decodes U m\<close> by (cases "U (MsgResult m)") (auto simp: decodes_def)
      then show ?thesis using False Cons.IH[OF rest] by (simp add: a)
    qed
  qed
qed

lemma MergeMeasurementsNames_undecodable:
  assumes "\<exists>(n, m) \<in> set ms. \<not> decodes U m"
  shows "\<exists>e. MergeMeasurementsNames U seed ms = (Some e, [])"
  using gatherNames_undecodable[OF assms, of "[]"]
  by (auto simp: MergeMeasurementsNames_def)

text \<open>
  Claim C7. When every non-empty reply can be decoded, \<^verbatim>\<open>MergeMeasurementsNames\<close>
  returns no error and the names of all nodes, without repetition, in ascending
  lexicographic order of their bytes. The output is the same for every order in which the
  two maps are iterated and for every order of the nodes (commutative), for every other
  grouping of the same names into decodable replies, and when a copy of every reply is
  merged in once more (idempotent). Whether or not the replies can be decoded, the names
  returned and the presence of an error do not depend on the order of the nodes (with a
  reply that cannot be decoded the names are \<^verbatim>\<open>nil\<close>; only the text of the error names
  the reply that was met first).
\<close>

theorem MergeMeasurementsNames_sorted_dedup_union:
  "((\<forall>(n, m) \<in> set ms. decodes U m) \<longrightarrow>
      (\<exists>names.
           MergeMeasurementsNames U seed ms = (None, names) \<and>
           sorted_wrt (<) names \<and> set names = allNames U ms \<and>
           (\<forall>ms' seed'. mset ms' = mset ms \<longrightarrow>
              MergeMeasurementsNames U seed' ms' = (None, names)) \<and>
           (\<forall>ms' seed'. (\<forall>(n, m) \<in> set ms'. decodes U m) \<and> allNames U ms' = allNames U ms \<longrightarrow>
              MergeMeasurementsNames U seed' ms' = (None, names)) \<and>
           (\<forall>ms' seed'. map snd ms' = map snd ms \<longrightarrow>
              MergeMeasurementsNames U seed' (ms @ ms') = (None, names)))) \<and>
   (\<forall>ms' seed'. mset ms' = mset ms \<longrightarrow>
      snd (MergeMeasurementsNames U seed' ms') = snd (MergeMeasurementsNames U seed ms) \<and>
      (fst (MergeMeasurementsNames U seed' ms') = None) =
        (fst (MergeMeasurementsNames U seed ms) = None))"
proof (intro conjI impI)
  assume dec: "\<forall>(n, m) \<in> set ms. decodes U m"
  let ?names = "sorted_list_of_set (allNames U ms)"
  have fin: "finite (allNames U ms)" by (simp add: allNames_def)
  have a: "MergeMeasurementsNames U seed ms = (None, ?names)"
    using dec by (rule MergeMeasurementsNames_sorted_union)
  have b: "sorted_wrt (<) ?names" by (simp add: strict_sorted_iff)
  have c: "set ?names = allNames U ms" using fin by simp
  have grp: "MergeMeasurementsNames U seed' ms' = (None, ?names)"
    if "\<forall>(n, m) \<in> set ms'. decodes U m" and "allNames U ms' = allNames U ms" for ms' seed'
    using MergeMeasurementsNames_sorted_union[OF that(1), of seed'] that(2) by simp
  have com: "MergeMeasurementsNames U seed' ms' = (None, ?names)"
    if "mset ms' = mset ms" for ms' seed'
  proof -
    have "set ms' = set ms" using that by (rule mset_eq_setD)
    then have "\<forall>(n, m) \<in> set ms'. decodes U m" using dec by simp
    then show ?thesis using allNames_mset[OF that] by (rule grp)
  qed
  have idem: "MergeMeasurementsNames U seed' (ms @ ms') = (None, ?names)"
    if "map snd ms' = map snd ms" for ms' seed'
  proof -
    have s: "snd ` set ms' = snd ` set ms" using that by (metis set_map)
    then have "\<forall>(n, m) \<in> set (ms @ ms'). decodes U m" using dec by force
    moreover have "allNames U (ms @ ms') = allNames U ms"
      using s by (simp add: allNames_def image_Un)
    ultimately show ?thesis by (rule grp)
  qed
  show "\<exists>names.
           MergeMeasurementsNames U seed ms = (None, names) \<and>
           sorted_wrt (<) names \<and> set names = allNames U ms \<and>
           (\<forall>ms' seed'. mset ms' = mset ms \<longrightarrow>
              MergeMeasurementsNames U seed' ms' = (None, names)) \<and>
           (\<forall>ms' seed'. (\<forall>(n, m) \<in> set ms'. decodes U m) \<and> allNames U ms' = allNames U ms \<longrightarrow>
              MergeMeasurementsNames U seed' ms' = (None, names)) \<and>
           (\<forall>ms' seed'. map snd ms' = map snd ms \<longrightarrow>
              MergeMeasurementsNames U seed' (ms @ ms') = (None, names))"
    using a b c grp com idem by blast
next
  show "\<forall>ms' seed'. mset ms' = mset ms \<longrightarrow>
      snd (MergeMeasurementsNames U seed' ms') = snd (MergeMeasurementsNames U seed ms) \<and>
      (fst (MergeMeasurementsNames U seed' ms') = None) =
        (fst (MergeMeasurementsNames U seed ms) = None)"
  proof (intro allI impI)
    fix ms' seed'
    assume m: "mset ms' = mset ms"
    then have st: "set ms' = set ms" by (rule mset_eq_setD)
    show "snd (MergeMeasurementsNames U seed' ms') = snd (MergeMeasurementsNames U seed ms) \<and>
      (fst (MergeMeasurementsNames U seed' ms') = None) =
        (fst (MergeMeasurementsNames U seed ms) = None)"
    proof (cases "\<forall>(n, m) \<in> set ms. decodes U m")
      case True
      then have d': "\<forall>(n, m) \<in> set ms'. decodes U m" using st by simp
      show ?thesis
        using MergeMeasurementsNames_sorted_union[OF True, of seed]
          MergeMeasurementsNames_sorted_union[OF d', of seed'] allNames_mset[OF m, of U]
        by simp
    next
      case False
      then have b: "\<exists>(n, m) \<in> set ms. \<not> decodes U m" by auto
      then have b': "\<exists>(n, m) \<in> set ms'. \<not> decodes U m" using st by simp
      obtain e where "MergeMeasurementsNames U seed ms = (Some e, [])"
        using MergeMeasurementsNames_undecodable[OF b] by blast
      moreover obtain e' where "MergeMeasurementsNames U seed' ms' = (Some e', [])"
        using MergeMeasurementsNames_undecodable[OF b'] by blast
      ultimately show ?thesis by simp
    qed
  qed
qed

theorem MergeMeasurementsNames_sorted_dedup_union_witness:
  "decodes unmarshal0 (snd (messages0 ! 0)) \<and> decodes unmarshal0 (snd (messages0 ! 1)) \<and>
   decodes unmarshal0 (snd (messages0 ! 2)) \<and>
   MergeMeasurementsNames unmarshal0 [] messages0 = (None, [[0x61], [0x62], [0x63]]) \<and>
   MergeMeasurementsNames unmarshal0 [5, 1] (rev messages0) = (None, [[0x61], [0x62], [0x63]])"
proof -
  have d: "\<forall>(n, m) \<in> set messages0. decodes unmarshal0 m"
    by (simp add: messages0_def decodes_def unmarshal0_def)
  have v: "MergeMeasurementsNames unmarshal0 [] messages0 = (None, [[0x61], [0x62], [0x63]])"
    by (simp add: MergeMeasurementsNames_def messages0_def unmarshal0_def insertKey_def)
  have r: "mset (rev messages0) = mset messages0" by simp
  from MergeMeasurementsNames_sorted_dedup_union[of messages0 unmarshal0 "[]"] d
  obtain names where n: "MergeMeasurementsNames unmarshal0 [] messages0 = (None, names)"
    and c: "\<forall>ms' seed'. mset ms' = mset messages0 \<longrightarrow>
              MergeMeasurementsNames unmarshal0 seed' ms' = (None, names)"
    by blast
  have "names = [[0x61], [0x62], [0x63]]" using n v by simp
  then have "MergeMeasurementsNames unmarshal0 [5, 1] (rev messages0) =
               (None, [[0x61], [0x62], [0x63]])"
    using c r by blast
  then show ?thesis using v by (simp add: messages0_def decodes_def unmarshal0_def)
qed

section \<open>executeKillQuery: the count of the nodes that did not find the query\<close>

text \<open>A goroutine that runs alone from its start adds one to the count if its node answers
  "query not found", and returns.\<close>

lemma killStep_alone:
  assumes "i < length (goroutines s)" and "goroutines s ! i = Calling"
  shows "foldl (killStep K Q queryID nodes) s (replicate 5 i) =
           s\<lparr>goroutines := (goroutines s)[i := Finished],
             errVar := KillQueryOnNode Q (ID (nodes ! i)) queryID,
             notFoundCount := notFoundCount s +
               (if isQueryNotFound K (KillQueryOnNode Q (ID (nodes ! i)) queryID) then 1 else 0)\<rparr>"
proof -
  have r: "replicate 5 i = [i, i, i, i, i]" by (simp add: numeral_eq_Suc)
  show ?thesis
    using assms unfolding r
    by (cases "KillQueryOnNode Q (ID (nodes ! i)) queryID")
       (simp_all add: killStep_def isQueryNotFound_def)
qed

lemma killStep_serial:
  assumes "distinct js" and "\<forall>j \<in> set js. j < length (goroutines s) \<and> goroutines s ! j = Calling"
  shows "notFoundCount (foldl (killStep K Q queryID nodes) s (concat (map (replicate 5) js))) =
           notFoundCount s +
           length (filter (\<lambda>j. isQueryNotFound K (KillQueryOnNode Q (ID (nodes ! j)) queryID)) js)"
  using assms
proof (induction js arbitrary: s)
  case Nil
  then show ?case by simp
next
  case (Cons i js)
  let ?s1 = "s\<lparr>goroutines := (goroutines s)[i := Finished],
             errVar := KillQueryOnNode Q (ID (nodes ! i)) queryID,
             notFoundCount := notFoundCount s +
               (if isQueryNotFound K (KillQueryOnNode Q (ID (nodes ! i)) queryID) then 1 else 0)\<rparr>"
  have i: "i < length (goroutines s)" "goroutines s ! i = Calling" using Cons.prems(2) by simp_all
  have one: "foldl (killStep K Q queryID nodes) s (replicate 5 i) = ?s1"
    using i by (rule killStep_alone)
  have d: "distinct js" and ni: "i \<notin> set js" using Cons.prems(1) by simp_all
  have rest: "\<forall>j \<in> set js. j < length (goroutines ?s1) \<and> goroutines ?s1 ! j = Calling"
    using Cons.prems(2) ni by (auto simp: nth_list_update)
  have "foldl (killStep K Q queryID nodes) s (concat (map (replicate 5) (i # js))) =
        foldl (killStep K Q queryID nodes) ?s1 (concat (map (replicate 5) js))"
    using one by simp
  then show ?case using Cons.IH[OF d rest] by simp
qed

lemma filter_upt_nth:
  "length (filter (\<lambda>j. P (xs ! j)) [0..<length xs]) = length (filter P xs)"
proof -
  have "filter P xs = filter P (map (\<lambda>j. xs ! j) [0..<length xs])" by (simp add: map_nth)
  also have "\<dots> = map (\<lambda>j. xs ! j) (filter (\<lambda>j. P (xs ! j)) [0..<length xs])"
    by (simp add: filter_map o_def)
  finally show ?thesis by simp
qed

text \<open>
  When the goroutines run one after the other, \<^verbatim>\<open>executeKillQuery\<close> does what is
  expected of it: it fails with "query not found" exactly when every node answers so.
\<close>

lemma executeKillQuery_serial:
  assumes "DataNodes Q = (nodes, None)"
  shows "executeKillQuery K Q [] queryID [] =
           (if \<forall>node \<in> set nodes. reportsNotFound K Q queryID node
            then Some (NewError K (ErrQueryNotFound K) queryID) else None)"
proof -
  let ?P = "reportsNotFound K Q queryID"
  let ?s0 = "\<lparr>goroutines = replicate (length nodes) Calling, errVar = None, notFoundCount = 0\<rparr>"
  have "notFoundCount (runKill K Q queryID nodes []) =
          length (filter (\<lambda>j. ?P (nodes ! j)) [0..<length nodes])"
    using killStep_serial[of "[0..<length nodes]" ?s0 K Q queryID nodes]
    by (simp add: runKill_def reportsNotFound_def)
  then have c: "notFoundCount (runKill K Q queryID nodes []) = length (filter ?P nodes)"
    by (simp add: filter_upt_nth)
  have "(length (filter ?P nodes) = length nodes) = (\<forall>node \<in> set nodes. ?P node)"
    by (metis filter_True filter_id_conv length_filter_less less_irrefl)
  then show ?thesis using assms c by (simp add: executeKillQuery_def)
qed

text \<open>The runs below are evaluated one by one.\<close>

lemma storeNotFound_reports:
  "reportsNotFound killDeps0 storeNotFound 7 \<lparr>ID = 1, Host = ''A''\<rparr>"
  "reportsNotFound killDeps0 storeNotFound 7 \<lparr>ID = 2, Host = ''B''\<rparr>"
  by (simp_all add: reportsNotFound_def isQueryNotFound_def killDeps0_def storeNotFound_def
      errQueryNotFound_def)

lemma storeNotFound_racy_count:
  "notFoundCount (runKill killDeps0 storeNotFound 7
                    [\<lparr>ID = 1, Host = ''A''\<rparr>, \<lparr>ID = 2, Host = ''B''\<rparr>]
                    [0, 0, 0, 0, 1, 1, 1, 1]) = 1"
  by code_simp

lemma storeNotFound_racy_result:
  "executeKillQuery killDeps0 storeNotFound [] 7 [0, 0, 0, 0, 1, 1, 1, 1] = None"
  by code_simp

lemma storeNotFound_serial_result:
  "executeKillQuery killDeps0 storeNotFound [] 7 [] =
     Some (NewError killDeps0 (ErrQueryNotFound killDeps0) 7)"
  by code_simp

lemma storeOneAck_reports:
  "\<not> reportsNotFound killDeps0 storeOneAck 7 \<lparr>ID = 1, Host = ''A''\<rparr>"
  "KillQueryOnNode storeOneAck 1 7 = None"
  by (simp_all add: reportsNotFound_def isQueryNotFound_def storeOneAck_def)

lemma storeOneAck_racy_result:
  "executeKillQuery killDeps0 storeOneAck [] 7 [0, 1] =
     Some (NewError killDeps0 (ErrQueryNotFound killDeps0) 7)"
  by code_simp

lemma storeOneAck_serial_result:
  "executeKillQuery killDeps0 storeOneAck [] 7 [] = None"
  by code_simp

text \<open>
  Claim C4 does not hold of the code. Two nodes answer "query not found"; both
  goroutines read \<^verbatim>\<open>notFoundCount = 0\<close> before either writes it back, so the count ends
  at 1, not at 2, and \<^verbatim>\<open>executeKillQuery\<close> returns \<^verbatim>\<open>nil\<close>: success, although every
  node reports "query not found". (In the schedule each goroutine takes four steps, up to
  its read of the count; \<^verbatim>\<open>wg.Wait()\<close> then lets both finish.) With the goroutines one
  after the other, the same request fails with "query not found".
\<close>

theorem executeKillQuery_lost_update:
  "reportsNotFound killDeps0 storeNotFound 7 \<lparr>ID = 1, Host = ''A''\<rparr> \<and>
   reportsNotFound killDeps0 storeNotFound 7 \<lparr>ID = 2, Host = ''B''\<rparr> \<and>
   notFoundCount (runKill killDeps0 storeNotFound 7
                    [\<lparr>ID = 1, Host = ''A''\<rparr>, \<lparr>ID = 2, Host = ''B''\<rparr>]
                    [0, 0, 0, 0, 1, 1, 1, 1]) = 1 \<and>
   executeKillQuery killDeps0 storeNotFound [] 7 [0, 0, 0, 0, 1, 1, 1, 1] = None \<and>
   executeKillQuery killDeps0 storeNotFound [] 7 [] =
     Some (NewError killDeps0 (ErrQueryNotFound killDeps0) 7)"
  by (intro conjI storeNotFound_reports storeNotFound_racy_count storeNotFound_racy_result
      storeNotFound_serial_result)

text \<open>
  The shared \<^verbatim>\<open>err\<close> breaks the other half of the claim. The first node kills the
  query, the second answers "query not found". The first goroutine assigns \<^verbatim>\<open>nil\<close> to
  \<^verbatim>\<open>err\<close>, the second assigns its error, and only then does the first goroutine test
  \<^verbatim>\<open>err\<close>: it finds the other goroutine's error and counts it. The count ends at 2 and
  \<^verbatim>\<open>executeKillQuery\<close> fails with "query not found", although a node acknowledged the
  kill. With the goroutines one after the other, the same request succeeds.
\<close>

lemma executeKillQuery_shared_err:
  "\<not> reportsNotFound killDeps0 storeOneAck 7 \<lparr>ID = 1, Host = ''A''\<rparr> \<and>
   KillQueryOnNode storeOneAck 1 7 = None \<and>
   executeKillQuery killDeps0 storeOneAck [] 7 [0, 1] =
     Some (NewError killDeps0 (ErrQueryNotFound killDeps0) 7) \<and>
   executeKillQuery killDeps0 storeOneAck [] 7 [] = None"
  by (intro conjI storeOneAck_reports storeOneAck_racy_result storeOneAck_serial_result)

end
